theory Spec2Isabelle
  imports Complex_Main "HOL-Library.Sublist"
begin

section \<open>Python values and strings\<close>

text \<open>
  Parameter dictionaries are \<open>Dict[str, Any]\<close> in the source. The values that the planner
  and the recovery controller read are strings; the other Python values that can stand in
  their place are kept as separate constructors, so that a method call on a non-string
  (\<open>.split\<close>, \<open>.startswith\<close>, \<open>.lower\<close>) is an exception of the model as it is in Python.
\<close>

datatype pyval = PStr string | PInt int | PBool bool | PNone

type_synonym pydict = "string \<rightharpoonup> pyval"

datatype py_exception = AttributeError | TypeError | OSError

text \<open>Decimal rendering of an integer, as \<open>str(n)\<close> and an f-string field do.\<close>

definition digit_char :: "nat \<Rightarrow> char" where
  "digit_char d = char_of (48 + d)"

function str_nat :: "nat \<Rightarrow> string" where
  "str_nat n = (if n < 10 then [digit_char n] else str_nat (n div 10) @ [digit_char (n mod 10)])"
  by pat_completeness auto
termination
  by (relation "measure id") auto

declare str_nat.simps [simp del]

definition str_int :: "int \<Rightarrow> string" where
  "str_int i = (if i < 0 then CHR ''-'' # str_nat (nat (- i)) else str_nat (nat i))"

fun py_str :: "pyval \<Rightarrow> string" where
  "py_str (PStr s) = s"
| "py_str (PInt i) = str_int i"
| "py_str (PBool b) = (if b then ''True'' else ''False'')"
| "py_str PNone = ''None''"

text \<open>\<open>str.lower()\<close> on the ASCII range (a \<open>char\<close> is a byte).\<close>

definition lower_char :: "char \<Rightarrow> char" where
  "lower_char c =
     (let n = (of_char c :: nat) in if 65 \<le> n \<and> n \<le> 90 then char_of (n + 32) else c)"

definition lower :: "string \<Rightarrow> string" where
  "lower s = map lower_char s"

text \<open>\<open>sub in s\<close>: the substring test, scanning the start positions from the left.\<close>

fun contains :: "string \<Rightarrow> string \<Rightarrow> bool" where
  "contains sub [] = (sub = [])"
| "contains sub (c # cs) = (prefix sub (c # cs) \<or> contains sub cs)"

text \<open>\<open>s.split(c)\<close> for a one-character separator: never empty, the last piece is \<open>[-1]\<close>.\<close>

fun split_char :: "char \<Rightarrow> string \<Rightarrow> string list" where
  "split_char c [] = [[]]"
| "split_char c (x # xs) =
     (if x = c then [] # split_char c xs
      else (case split_char c xs of
              [] \<Rightarrow> [[x]]
            | w # ws \<Rightarrow> (x # w) # ws))"

text \<open>\<open>d.get(k, default)\<close>\<close>

definition dict_get :: "pydict \<Rightarrow> string \<Rightarrow> pyval \<Rightarrow> pyval" where
  "dict_get d k dflt = (case d k of None \<Rightarrow> dflt | Some v \<Rightarrow> v)"

section \<open>planner.py: steps and plans\<close>

datatype StepStatus = PENDING | RUNNING | COMPLETED | FAILED | SKIPPED

text \<open>
  \<open>PlanStep\<close>. The field \<open>id\<close> is \<open>step_id\<close> here, \<open>result\<close> and \<open>error\<close> are
  \<open>step_result\<close> and \<open>step_error\<close> (the source reuses these names in other classes).
\<close>

record PlanStep =
  step_id :: string
  tool :: string
  params :: pydict
  description :: string
  depends_on :: "string list"
  status :: StepStatus
  step_result :: "string option"
  step_error :: "string option"
  retry_count :: int
  max_retries :: int

definition can_retry :: "PlanStep \<Rightarrow> bool" where
  "can_retry s = (retry_count s < max_retries s)"

record ExecutionPlan =
  task :: string
  steps :: "PlanStep list"
  metadata :: pydict

text \<open>\<open>ExecutionPlan(task=t, metadata=m)\<close>: a freshly constructed plan has no steps.\<close>

definition new_plan :: "string \<Rightarrow> pydict \<Rightarrow> ExecutionPlan" where
  "new_plan t m = \<lparr>task = t, steps = [], metadata = m\<rparr>"

text \<open>
  A plan owns its steps: \<open>add_step\<close> creates each step object and appends it, and nothing
  removes or reorders steps. A reference to a step object of a plan is therefore modelled
  as the position of the step in \<open>steps\<close>; mutating the object is a list update there.

  \<open>add_step\<close> returns the plan with the step appended and the reference to the new step.
  The defaults of the dataclass fill the remaining fields.
\<close>

definition add_step ::
  "ExecutionPlan \<Rightarrow> string \<Rightarrow> pydict \<Rightarrow> string \<Rightarrow> string list option \<Rightarrow> ExecutionPlan \<times> nat" where
  "add_step plan tname ps descr deps =
     (let sid = ''step_'' @ str_nat (length (steps plan) + 1);
          step = \<lparr>step_id = sid, tool = tname, params = ps, description = descr,
                  depends_on = (case deps of None \<Rightarrow> [] | Some ds \<Rightarrow> ds),
                  status = PENDING, step_result = None, step_error = None,
                  retry_count = 0, max_retries = 2\<rparr>
      in (plan\<lparr>steps := steps plan @ [step]\<rparr>, length (steps plan)))"

text \<open>\<open>get_step\<close>: the first step with the given id, or \<open>None\<close>.\<close>

fun get_step_loop :: "PlanStep list \<Rightarrow> string \<Rightarrow> PlanStep option" where
  "get_step_loop [] sid = None"
| "get_step_loop (s # ss) sid = (if step_id s = sid then Some s else get_step_loop ss sid)"

definition get_step :: "ExecutionPlan \<Rightarrow> string \<Rightarrow> PlanStep option" where
  "get_step plan sid = get_step_loop (steps plan) sid"

text \<open>
  The inner loop of \<open>get_ready_steps\<close>: \<open>deps_met\<close> starts true and the loop breaks with
  false at the first dependency that is missing or not completed.
\<close>

fun deps_met :: "ExecutionPlan \<Rightarrow> string list \<Rightarrow> bool" where
  "deps_met plan [] = True"
| "deps_met plan (dep_id # rest) =
     (case get_step plan dep_id of
        None \<Rightarrow> False
      | Some dep \<Rightarrow> if status dep \<noteq> COMPLETED then False else deps_met plan rest)"

text \<open>The outer loop, with the accumulator \<open>ready\<close>.\<close>

fun ready_loop :: "ExecutionPlan \<Rightarrow> PlanStep list \<Rightarrow> PlanStep list \<Rightarrow> PlanStep list" where
  "ready_loop plan [] ready = ready"
| "ready_loop plan (s # ss) ready =
     (if status s \<noteq> PENDING then ready_loop plan ss ready
      else if deps_met plan (depends_on s) then ready_loop plan ss (ready @ [s])
      else ready_loop plan ss ready)"

definition get_ready_steps :: "ExecutionPlan \<Rightarrow> PlanStep list" where
  "get_ready_steps plan = ready_loop plan (steps plan) []"

text \<open>
  The same loop returning the references (positions) of the ready steps, which is what the
  orchestration loop iterates over when it mutates the returned objects.
\<close>

fun ready_refs_loop :: "ExecutionPlan \<Rightarrow> nat \<Rightarrow> PlanStep list \<Rightarrow> nat list \<Rightarrow> nat list" where
  "ready_refs_loop plan i [] ready = ready"
| "ready_refs_loop plan i (s # ss) ready =
     (if status s \<noteq> PENDING then ready_refs_loop plan (Suc i) ss ready
      else if deps_met plan (depends_on s) then ready_refs_loop plan (Suc i) ss (ready @ [i])
      else ready_refs_loop plan (Suc i) ss ready)"

definition ready_refs :: "ExecutionPlan \<Rightarrow> nat list" where
  "ready_refs plan = ready_refs_loop plan 0 (steps plan) []"

text \<open>\<open>is_complete\<close>: \<open>all(...)\<close> over the steps.\<close>

definition is_complete :: "ExecutionPlan \<Rightarrow> bool" where
  "is_complete plan =
     list_all (\<lambda>step. status step = COMPLETED \<or> status step = FAILED \<or> status step = SKIPPED)
       (steps plan)"

section \<open>planner.py: the task planner\<close>

text \<open>
  \<open>context.get(k, default) if context else default\<close>. A context that is \<open>None\<close> or an
  empty dictionary is falsy and gives the default, which is also what \<open>get\<close> gives on an
  empty dictionary.
\<close>

definition ctx_get :: "pydict option \<Rightarrow> string \<Rightarrow> pyval \<Rightarrow> pyval" where
  "ctx_get context k dflt = (case context of None \<Rightarrow> dflt | Some d \<Rightarrow> dict_get d k dflt)"

text \<open>
  The \<open>_plan_*\<close> methods (an Isabelle name cannot start with an underscore). Each mutates
  the plan in place; here it returns the plan. \<open>self\<close> is not a parameter: none of the
  planner's methods reads \<open>available_tools\<close>.
\<close>

definition plan_file_read :: "ExecutionPlan \<Rightarrow> string \<Rightarrow> pydict option \<Rightarrow> ExecutionPlan" where
  "plan_file_read plan tsk context =
     (let path = ctx_get context ''path'' (PStr ''unknown'')
      in fst (add_step plan ''file_read'' [''path'' \<mapsto> path] (''Read file: '' @ py_str path) None))"

definition plan_file_write :: "ExecutionPlan \<Rightarrow> string \<Rightarrow> pydict option \<Rightarrow> ExecutionPlan" where
  "plan_file_write plan tsk context =
     (let path = ctx_get context ''path'' (PStr ''output.txt'');
          content = ctx_get context ''content'' (PStr [])
      in fst (add_step plan ''file_write'' [''path'' \<mapsto> path, ''content'' \<mapsto> content]
                (''Write to file: '' @ py_str path) None))"

definition plan_search :: "ExecutionPlan \<Rightarrow> string \<Rightarrow> pydict option \<Rightarrow> ExecutionPlan" where
  "plan_search plan tsk context =
     (let pattern = ctx_get context ''pattern'' (PStr ''TODO'')
      in fst (add_step plan ''search'' [''pattern'' \<mapsto> pattern]
                (''Search for pattern: '' @ py_str pattern) None))"

definition plan_run_tests :: "ExecutionPlan \<Rightarrow> string \<Rightarrow> pydict option \<Rightarrow> ExecutionPlan" where
  "plan_run_tests plan tsk context =
     (let test_cmd = ctx_get context ''command'' (PStr ''pytest'')
      in fst (add_step plan ''shell'' [''command'' \<mapsto> test_cmd] ''Run tests'' None))"

definition plan_install :: "ExecutionPlan \<Rightarrow> string \<Rightarrow> pydict option \<Rightarrow> ExecutionPlan" where
  "plan_install plan tsk context =
     (let package = ctx_get context ''package'' (PStr [])
      in fst (add_step plan ''shell'' [''command'' \<mapsto> PStr (''pip install '' @ py_str package)]
                (''Install package: '' @ py_str package) None))"

definition plan_git :: "ExecutionPlan \<Rightarrow> string \<Rightarrow> pydict option \<Rightarrow> ExecutionPlan" where
  "plan_git plan tsk context =
     (let message = ctx_get context ''message'' (PStr ''Update'');
          (plan1, step1) = add_step plan ''shell'' [''command'' \<mapsto> PStr ''git add -A'']
                             ''Stage changes'' None
      in fst (add_step plan1 ''shell''
                [''command'' \<mapsto> PStr (''git commit -m '' @ [CHR 0x22] @ py_str message @ [CHR 0x22])]
                ''Create commit'' (Some [step_id (steps plan1 ! step1)])))"

definition plan_refactor :: "ExecutionPlan \<Rightarrow> string \<Rightarrow> pydict option \<Rightarrow> ExecutionPlan" where
  "plan_refactor plan tsk context =
     (let old_name = ctx_get context ''old_name'' (PStr []);
          new_name = ctx_get context ''new_name'' (PStr []);
          (plan1, step1) = add_step plan ''search'' [''pattern'' \<mapsto> old_name]
                             (''Find occurrences of: '' @ py_str old_name) None
      in fst (add_step plan1 ''shell''
                [''command'' \<mapsto> PStr (''sed -i '' @ [CHR 0x27] @ ''s/'' @ py_str old_name @ ''/''
                                          @ py_str new_name @ ''/g'' @ [CHR 0x27] @ '' *.py'')]
                (''Replace '' @ py_str old_name @ '' with '' @ py_str new_name)
                (Some [step_id (steps plan1 ! step1)])))"

definition plan_shell :: "ExecutionPlan \<Rightarrow> string \<Rightarrow> pydict option \<Rightarrow> ExecutionPlan" where
  "plan_shell plan tsk context =
     (let command = ctx_get context ''command'' (PStr tsk)
      in fst (add_step plan ''shell'' [''command'' \<mapsto> command]
                (''Execute: '' @ py_str command) None))"

text \<open>\<open>TaskPlanner.plan\<close>: keyword matching on the lowered task description.\<close>

definition planner_plan :: "string \<Rightarrow> pydict option \<Rightarrow> ExecutionPlan" where
  "planner_plan tsk context =
     (let plan = new_plan tsk (case context of None \<Rightarrow> Map.empty | Some d \<Rightarrow> d);
          task_lower = lower tsk
      in if contains ''read'' task_lower \<and> contains ''file'' task_lower then
           plan_file_read plan tsk context
         else if contains ''write'' task_lower \<or> contains ''create'' task_lower then
           plan_file_write plan tsk context
         else if contains ''search'' task_lower \<or> contains ''find'' task_lower then
           plan_search plan tsk context
         else if contains ''test'' task_lower \<or> contains ''pytest'' task_lower then
           plan_run_tests plan tsk context
         else if contains ''install'' task_lower then
           plan_install plan tsk context
         else if contains ''git'' task_lower \<or> contains ''commit'' task_lower then
           plan_git plan tsk context
         else if contains ''refactor'' task_lower \<or> contains ''rename'' task_lower then
           plan_refactor plan tsk context
         else
           plan_shell plan tsk context)"

section \<open>planner.py: the recovery controller\<close>

text \<open>
  \<open>replan_on_failure(plan, failed_step, error)\<close>. The failed step is a step object of the
  plan, given by its reference \<open>i\<close> (\<open>i < length (steps plan)\<close>). The result is the mutated
  plan and the reference to the returned step, \<open>None\<close> when no recovery is possible.
  The orchestration loop passes \<open>result.error\<close>, an \<open>Optional[str]\<close>, as \<open>error\<close>: calling
  \<open>.lower()\<close> on \<open>None\<close>, or \<open>.split\<close> and \<open>.startswith\<close> on a parameter that is no
  string, raises \<open>AttributeError\<close>.
\<close>

definition replan_on_failure ::
  "ExecutionPlan \<Rightarrow> nat \<Rightarrow> string option \<Rightarrow> py_exception + (ExecutionPlan \<times> nat option)" where
  "replan_on_failure plan i err =
     (let failed_step = steps plan ! i in
      if can_retry failed_step then
        Inr (plan\<lparr>steps := (steps plan)
                    [i := failed_step\<lparr>status := PENDING,
                                      retry_count := retry_count failed_step + 1\<rparr>]\<rparr>,
             Some i)
      else
        (case err of
           None \<Rightarrow> Inl AttributeError
         | Some error \<Rightarrow>
             if contains ''not found'' (lower error) \<and> tool failed_step = ''file_read'' then
               (case dict_get (params failed_step) ''path'' (PStr []) of
                  PStr path \<Rightarrow>
                    (let filename = last (split_char CHR ''/'' path);
                         (plan', recovery) =
                            add_step plan ''search''
                              [''pattern'' \<mapsto> PStr filename, ''file_pattern'' \<mapsto> PStr ''*'']
                              (''Search for file: '' @ filename) None
                     in Inr (plan', Some recovery))
                | _ \<Rightarrow> Inl AttributeError)
             else if contains ''permission denied'' (lower error) then
               (if tool failed_step = ''shell'' then
                  (case dict_get (params failed_step) ''command'' (PStr []) of
                     PStr cmd \<Rightarrow>
                       if \<not> prefix ''sudo'' cmd then
                         (let (plan', recovery) =
                                add_step plan ''shell'' [''command'' \<mapsto> PStr (''sudo '' @ cmd)]
                                  (''Retry with sudo: '' @ cmd) None
                          in Inr (plan', Some recovery))
                       else Inr (plan, None)
                   | _ \<Rightarrow> Inl AttributeError)
                else Inr (plan, None))
             else Inr (plan, None)))"

section \<open>tools.py: results, parameters and the registry\<close>

datatype ToolStatus = SUCCESS | ERROR | TIMEOUT | PERMISSION_DENIED

record ToolResult =
  tr_status :: ToolStatus
  tr_output :: string
  tr_error :: "string option"
  tr_metadata :: pydict

text \<open>\<open>ToolResult(status, output, error)\<close> with the default metadata.\<close>

definition tool_result :: "ToolStatus \<Rightarrow> string \<Rightarrow> string option \<Rightarrow> ToolResult" where
  "tool_result st out err = \<lparr>tr_status = st, tr_output = out, tr_error = err, tr_metadata = Map.empty\<rparr>"

record ToolParameter =
  param_name :: string
  param_type :: string
  param_description :: string
  required :: bool
  param_default :: pyval

text \<open>
  A tool: its name, its parameter list and its \<open>execute\<close>, which acts on the environment
  \<open>'w\<close> (files, processes) and returns a result. The concrete tools are outside the model;
  a tool is any function of this type.
\<close>

record 'w Tool =
  tool_name :: string
  parameters :: "ToolParameter list"
  tool_execute :: "pydict \<Rightarrow> 'w \<Rightarrow> ToolResult \<times> 'w"

fun validate_loop :: "ToolParameter list \<Rightarrow> pydict \<Rightarrow> string option" where
  "validate_loop [] kwargs = None"
| "validate_loop (p # ps) kwargs =
     (if required p \<and> kwargs (param_name p) = None
      then Some (''Missing required parameter: '' @ param_name p)
      else validate_loop ps kwargs)"

definition validate_params :: "'w Tool \<Rightarrow> pydict \<Rightarrow> string option" where
  "validate_params t kwargs = validate_loop (parameters t) kwargs"

text \<open>The registry is its dictionary \<open>_tools\<close>, from names to tools.\<close>

type_synonym 'w ToolRegistry = "string \<rightharpoonup> 'w Tool"

text \<open>
  \<open>ToolRegistry.execute\<close>. \<open>if validation_error:\<close> tests the message for being non-empty.
\<close>

definition registry_execute ::
  "'w ToolRegistry \<Rightarrow> string \<Rightarrow> pydict \<Rightarrow> 'w \<Rightarrow> ToolResult \<times> 'w" where
  "registry_execute reg tname kwargs w =
     (case reg tname of
        None \<Rightarrow> (tool_result ERROR [] (Some (''Unknown tool: '' @ tname)), w)
      | Some t \<Rightarrow>
          (case validate_params t kwargs of
             None \<Rightarrow> tool_execute t kwargs w
           | Some validation_error \<Rightarrow>
               if validation_error \<noteq> [] then (tool_result ERROR [] (Some validation_error), w)
               else tool_execute t kwargs w))"

section \<open>executor.py: the orchestration loop\<close>

text \<open>
  \<open>ExecutionStep\<close> and \<open>ExecutionResult\<close>. The wall-clock readings (\<open>start_time\<close>,
  \<open>end_time\<close>, \<open>total_time\<close>) are left out. The \<open>metadata\<close> of the result holds the final
  plan and the iteration count; they are the fields \<open>er_plan\<close> and \<open>er_iterations\<close>.
\<close>

record ExecutionStep =
  es_step_id :: string
  es_tool :: string
  es_params :: pydict
  es_result :: "ToolResult option"
  retries :: int

record ExecutionResult =
  er_task :: string
  success :: bool
  er_steps :: "ExecutionStep list"
  er_error :: "string option"
  er_plan :: ExecutionPlan
  er_iterations :: int

text \<open>
  The executor: its registry, \<open>max_steps\<close> and the optional callback, which may act on the
  environment. (\<open>mode\<close> and \<open>sandbox_config\<close> are not read by \<open>execute\<close>.)
\<close>

record 'w AgenticExecutor =
  registry :: "'w ToolRegistry"
  max_steps :: int
  on_step_complete :: "(ExecutionStep \<Rightarrow> 'w \<Rightarrow> 'w) option"

text \<open>
  \<open>_execute_step\<close>: marks the step \<open>RUNNING\<close> and dispatches it. The call
  \<open>registry.execute(plan_step.tool, **plan_step.params)\<close> raises \<open>TypeError\<close> when a
  parameter is named like one of the positional arguments \<open>self\<close> and \<open>tool_name\<close>.
\<close>

definition execute_step ::
  "'w AgenticExecutor \<Rightarrow> ExecutionPlan \<Rightarrow> nat \<Rightarrow> 'w
     \<Rightarrow> py_exception + (ExecutionPlan \<times> ExecutionStep \<times> 'w)" where
  "execute_step ex plan i w =
     (let plan_step = steps plan ! i;
          plan1 = plan\<lparr>steps := (steps plan)[i := plan_step\<lparr>status := RUNNING\<rparr>]\<rparr>
      in if params plan_step ''self'' \<noteq> None \<or> params plan_step ''tool_name'' \<noteq> None then
           Inl TypeError
         else
           (let (res, w') = registry_execute (registry ex) (tool plan_step) (params plan_step) w;
                exec_step = \<lparr>es_step_id = step_id plan_step, es_tool = tool plan_step,
                             es_params = params plan_step, es_result = Some res,
                             retries = retry_count plan_step\<rparr>
            in Inr (plan1, exec_step, w')))"

text \<open>
  The failure branch of the loop body: ask the recovery controller; only when it returns
  nothing is the step marked \<open>FAILED\<close> with the error message.
\<close>

definition try_recovery ::
  "ExecutionPlan \<Rightarrow> nat \<Rightarrow> string option \<Rightarrow> py_exception + ExecutionPlan" where
  "try_recovery plan i error_msg =
     (case replan_on_failure plan i error_msg of
        Inl e \<Rightarrow> Inl e
      | Inr (plan', recovery_step) \<Rightarrow>
          (case recovery_step of
             None \<Rightarrow>
               Inr (plan'\<lparr>steps := (steps plan')
                            [i := (steps plan' ! i)\<lparr>status := FAILED, step_error := error_msg\<rparr>]\<rparr>)
           | Some r \<Rightarrow> Inr plan'))"

text \<open>The body of \<open>for plan_step in ready_steps\<close>, for the step with reference \<open>i\<close>.\<close>

definition run_ready_step ::
  "'w AgenticExecutor \<Rightarrow> nat \<Rightarrow> ExecutionPlan \<times> ExecutionStep list \<times> 'w
     \<Rightarrow> py_exception + (ExecutionPlan \<times> ExecutionStep list \<times> 'w)" where
  "run_ready_step ex i st =
     (case st of (plan, steps_executed, w) \<Rightarrow>
        (case execute_step ex plan i w of
           Inl e \<Rightarrow> Inl e
         | Inr (plan1, exec_step, w1) \<Rightarrow>
             (let steps_executed' = steps_executed @ [exec_step];
                  w2 = (case on_step_complete ex of None \<Rightarrow> w1 | Some cb \<Rightarrow> cb exec_step w1)
              in (case es_result exec_step of
                    Some res \<Rightarrow>
                      if tr_status res = SUCCESS then
                        Inr (plan1\<lparr>steps := (steps plan1)
                                     [i := (steps plan1 ! i)\<lparr>status := COMPLETED,
                                                             step_result := Some (tr_output res)\<rparr>]\<rparr>,
                             steps_executed', w2)
                      else
                        (case try_recovery plan1 i (tr_error res) of
                           Inl e \<Rightarrow> Inl e
                         | Inr plan2 \<Rightarrow> Inr (plan2, steps_executed', w2))
                  | None \<Rightarrow>
                      (case try_recovery plan1 i (Some ''Unknown error'') of
                         Inl e \<Rightarrow> Inl e
                       | Inr plan2 \<Rightarrow> Inr (plan2, steps_executed', w2))))))"

fun run_ready_steps ::
  "'w AgenticExecutor \<Rightarrow> nat list \<Rightarrow> ExecutionPlan \<times> ExecutionStep list \<times> 'w
     \<Rightarrow> py_exception + (ExecutionPlan \<times> ExecutionStep list \<times> 'w)" where
  "run_ready_steps ex [] st = Inr st"
| "run_ready_steps ex (i # rest) st =
     (case run_ready_step ex i st of
        Inl e \<Rightarrow> Inl e
      | Inr st' \<Rightarrow> run_ready_steps ex rest st')"

text \<open>
  The \<open>while\<close> loop of \<open>execute\<close>. It ends when the plan is complete, when the iteration
  count reaches \<open>max_steps\<close>, or by \<open>break\<close> when no step is ready.
\<close>

function agentic_loop ::
  "'w AgenticExecutor \<Rightarrow> int \<Rightarrow> ExecutionPlan \<times> ExecutionStep list \<times> 'w
     \<Rightarrow> py_exception + (int \<times> ExecutionPlan \<times> ExecutionStep list \<times> 'w)" where
  "agentic_loop ex iteration st =
     (if \<not> is_complete (fst st) \<and> iteration < max_steps ex then
        (let iteration' = iteration + 1;
             ready_steps = ready_refs (fst st)
         in if ready_steps = [] then Inr (iteration', st)
            else (case run_ready_steps ex ready_steps st of
                    Inl e \<Rightarrow> Inl e
                  | Inr st' \<Rightarrow> agentic_loop ex iteration' st'))
      else Inr (iteration, st))"
  by pat_completeness auto
termination
  by (relation "measure (\<lambda>(ex, iteration, st). nat (max_steps ex - iteration))") auto

declare agentic_loop.simps [simp del]

text \<open>The search for the first failed step's error: a loop with \<open>break\<close>.\<close>

fun first_failed_error :: "PlanStep list \<Rightarrow> string option" where
  "first_failed_error [] = None"
| "first_failed_error (s # ss) =
     (if status s = FAILED then step_error s else first_failed_error ss)"

text \<open>
  \<open>execute\<close> after the plan has been made: the loop and the summary of the final plan.
\<close>

definition execute_plan ::
  "'w AgenticExecutor \<Rightarrow> string \<Rightarrow> ExecutionPlan \<Rightarrow> 'w \<Rightarrow> py_exception + (ExecutionResult \<times> 'w)" where
  "execute_plan ex tsk plan w =
     (case agentic_loop ex 0 (plan, [], w) of
        Inl e \<Rightarrow> Inl e
      | Inr (iteration, plan', steps_executed, w') \<Rightarrow>
          (let succ = list_all (\<lambda>step. status step = COMPLETED) (steps plan');
               err = (if \<not> succ then first_failed_error (steps plan') else None)
           in Inr (\<lparr>er_task = tsk, success = succ, er_steps = steps_executed, er_error = err,
                    er_plan = plan', er_iterations = iteration\<rparr>, w')))"

definition execute ::
  "'w AgenticExecutor \<Rightarrow> string \<Rightarrow> pydict option \<Rightarrow> 'w \<Rightarrow> py_exception + (ExecutionResult \<times> 'w)" where
  "execute ex tsk context w = execute_plan ex tsk (planner_plan tsk context) w"

section \<open>sandbox.py: the code sandbox\<close>

datatype SandboxStatus =
  SB_READY | SB_RUNNING | SB_COMPLETED | SB_TIMEOUT | SB_ERROR | SB_MEMORY_EXCEEDED

record SandboxConfig =
  timeout_seconds :: int
  max_memory_mb :: int
  max_output_bytes :: int
  allowed_imports :: "string list option"
  blocked_imports :: "string list"
  working_dir :: "string option"
  cleanup_on_exit :: bool

definition default_config :: SandboxConfig where
  "default_config =
     \<lparr>timeout_seconds = 30, max_memory_mb = 256, max_output_bytes = 1024 * 1024,
      allowed_imports = None,
      blocked_imports = [''os.system'', ''subprocess'', ''socket'', ''requests'',
                         ''urllib'', ''ftplib'', ''telnetlib'', ''smtplib''],
      working_dir = None, cleanup_on_exit = True\<rparr>"

text \<open>
  \<open>SandboxResult\<close>. \<open>execution_time\<close> is a Python float that also receives the integer
  \<open>timeout_seconds\<close>; it is a real number here.
\<close>

record SandboxResult =
  sb_status :: SandboxStatus
  stdout :: string
  stderr :: string
  return_value :: "pyval option"
  execution_time :: real
  memory_used_mb :: real

text \<open>\<open>SandboxResult(status=, stdout=, stderr=)\<close> with the defaults of the dataclass.\<close>

definition sandbox_result :: "SandboxStatus \<Rightarrow> string \<Rightarrow> string \<Rightarrow> SandboxResult" where
  "sandbox_result st out err =
     \<lparr>sb_status = st, stdout = out, stderr = err, return_value = None,
      execution_time = 0, memory_used_mb = 0\<rparr>"

text \<open>The sandbox object: its configuration, \<open>_temp_dir\<close> and \<open>_status\<close>.\<close>

record CodeSandbox =
  config :: SandboxConfig
  temp_dir :: "string option"
  sandbox_status :: SandboxStatus

text \<open>
  The operating system as the sandbox sees it. Its state is the log of what the sandbox did
  to it: directories created, files written (path and content), processes spawned (argument
  vector and working directory).
\<close>

record os_state =
  dirs_created :: "string list"
  files_written :: "(string \<times> string) list"
  spawned :: "(string list \<times> string) list"

text \<open>
  What \<open>subprocess.run\<close> can do: return a completed process (return code, captured stdout
  and stderr), raise \<open>TimeoutExpired\<close> after killing the child (the exception carries the
  output captured so far), or raise another exception with its text.
\<close>

datatype proc_outcome =
  Exited int string string
| TimeoutExpired string string
| RunFailed string

text \<open>
  What \<open>json.loads\<close> makes of the child's stdout: a decode error, the payload that the
  wrapper script prints (\<open>stdout\<close>, \<open>stderr\<close>, and \<open>error\<close>, a string or \<open>null\<close>), or another
  JSON value, on which the field accesses raise; that exception's text is carried along.
\<close>

datatype json_payload =
  JSONDecodeError
| Payload string string "string option"
| Malformed string

text \<open>
  The answers of the operating system and of the library, which the model takes as
  parameters: the name \<open>mkdtemp\<close> returns, whether \<open>makedirs\<close> and \<open>mkdtemp\<close> succeed, the
  exception text when opening a path for writing fails, \<open>sys.executable\<close>, the outcome of
  running a command (argument vector, working directory, timeout) in a given state,
  \<open>json.loads\<close>, and the two elapsed-time readings \<open>time.time() - start_time\<close>, after the
  run and in the exception handler.
\<close>

record os_env =
  mkdtemp :: "string \<Rightarrow> string option"
  makedirs_ok :: "string \<Rightarrow> bool"
  open_write_error :: "string \<Rightarrow> string option"
  sys_executable :: string
  subprocess_run :: "os_state \<Rightarrow> string list \<Rightarrow> string \<Rightarrow> int \<Rightarrow> proc_outcome"
  json_loads :: "string \<Rightarrow> json_payload"
  elapsed :: real
  elapsed_in_handler :: real

text \<open>\<open>_setup\<close>: the working directory of the configuration if it is set and non-empty,
  a fresh temporary directory otherwise. A failing system call raises \<open>OSError\<close>.\<close>

definition sandbox_setup :: "os_env \<Rightarrow> CodeSandbox \<Rightarrow> os_state \<Rightarrow> py_exception + (CodeSandbox \<times> os_state)" where
  "sandbox_setup env sb os =
     (case working_dir (config sb) of
        Some d \<Rightarrow>
          if d \<noteq> [] then
            (if makedirs_ok env d
             then Inr (sb\<lparr>temp_dir := Some d\<rparr>, os\<lparr>dirs_created := dirs_created os @ [d]\<rparr>)
             else Inl OSError)
          else
            (case mkdtemp env ''sandbox_'' of
               None \<Rightarrow> Inl OSError
             | Some t \<Rightarrow> Inr (sb\<lparr>temp_dir := Some t\<rparr>, os\<lparr>dirs_created := dirs_created os @ [t]\<rparr>))
      | None \<Rightarrow>
          (case mkdtemp env ''sandbox_'' of
             None \<Rightarrow> Inl OSError
           | Some t \<Rightarrow> Inr (sb\<lparr>temp_dir := Some t\<rparr>, os\<lparr>dirs_created := dirs_created os @ [t]\<rparr>)))"

text \<open>\<open>_check_imports\<close>: the message for the first denylisted marker found in the code.\<close>

fun check_imports_loop :: "string list \<Rightarrow> string \<Rightarrow> string option" where
  "check_imports_loop [] code = None"
| "check_imports_loop (blocked # rest) code =
     (if contains blocked code then Some (''Blocked import detected: '' @ blocked)
      else check_imports_loop rest code)"

definition check_imports :: "CodeSandbox \<Rightarrow> string \<Rightarrow> string option" where
  "check_imports sb code = check_imports_loop (blocked_imports (config sb)) code"

text \<open>\<open>sep.join(xs)\<close> and \<open>_indent_code\<close>.\<close>

fun join :: "string \<Rightarrow> string list \<Rightarrow> string" where
  "join sep [] = []"
| "join sep [x] = x"
| "join sep (x # y # ys) = x @ sep @ join sep (y # ys)"

definition indent_code :: "string \<Rightarrow> int \<Rightarrow> string" where
  "indent_code code spaces =
     (let indent = replicate (nat spaces) CHR '' '';
          lines = split_char (CHR 0x0A) code
      in join [CHR 0x0A] (map (\<lambda>line. indent @ line) lines))"

text \<open>\<open>_create_wrapper_script\<close>: the template, line by line, around the indented code.\<close>

definition create_wrapper_script :: "string \<Rightarrow> string" where
  "create_wrapper_script code =
     join [CHR 0x0A]
       ([[],
         ''import sys'',
         ''import json'',
         [],
         ''# Redirect output'',
         ''_stdout = []'',
         ''_stderr = []'',
         [],
         ''class OutputCapture:'',
         ''    def __init__(self, target_list):'',
         ''        self.target = target_list'',
         ''    def write(self, text):'',
         ''        self.target.append(text)'',
         ''    def flush(self):'',
         ''        pass'',
         [],
         ''sys.stdout = OutputCapture(_stdout)'',
         ''sys.stderr = OutputCapture(_stderr)'',
         [],
         ''_result = None'',
         ''_error = None'',
         [],
         ''try:'',
         ''    # User code'',
         indent_code code 4,
         ''except Exception as e:'',
         ''    _error = str(e)'',
         [],
         ''# Output results'',
         ''sys.stdout = sys.__stdout__'',
         ''sys.stderr = sys.__stderr__'',
         [],
         ''output = {'',
         ''    '' @ [CHR 0x22] @ ''stdout'' @ [CHR 0x22] @ '': '' @ [CHR 0x22, CHR 0x22]
            @ ''.join(_stdout),'',
         ''    '' @ [CHR 0x22] @ ''stderr'' @ [CHR 0x22] @ '': '' @ [CHR 0x22, CHR 0x22]
            @ ''.join(_stderr),'',
         ''    '' @ [CHR 0x22] @ ''error'' @ [CHR 0x22] @ '': _error,'',
         ''}'',
         ''print(json.dumps(output))'',
         []])"

text \<open>\<open>os.path.join(a, b)\<close> for a relative \<open>b\<close> (POSIX).\<close>

definition path_join :: "string \<Rightarrow> string \<Rightarrow> string" where
  "path_join a b = (if a = [] then b else if last a = CHR ''/'' then a @ b else a @ ''/'' @ b)"

text \<open>\<open>s[:n]\<close>: a negative \<open>n\<close> counts from the end.\<close>

definition py_take :: "int \<Rightarrow> string \<Rightarrow> string" where
  "py_take n s = (if 0 \<le> n then take (nat n) s else take (length s - nat (- n)) s)"

definition truncate_output :: "SandboxConfig \<Rightarrow> string \<Rightarrow> string" where
  "truncate_output cfg s =
     (if int (length s) > max_output_bytes cfg
      then py_take (max_output_bytes cfg) s @ [CHR 0x0A] @ ''[OUTPUT TRUNCATED]''
      else s)"

text \<open>
  \<open>if not self._temp_dir: self._setup()\<close>: \<open>_temp_dir\<close> is falsy when it is \<open>None\<close> or
  the empty string. An exception of \<open>_setup\<close>, which is called outside any \<open>try\<close>, leaves
  \<open>execute\<close>.
\<close>

definition ensure_temp_dir ::
  "os_env \<Rightarrow> CodeSandbox \<Rightarrow> os_state \<Rightarrow> py_exception + (CodeSandbox \<times> os_state)" where
  "ensure_temp_dir env sb os =
     (if temp_dir sb = None \<or> temp_dir sb = Some [] then sandbox_setup env sb os
      else Inr (sb, os))"

text \<open>
  \<open>CodeSandbox.execute\<close> after the static check: make sure of the scratch directory, write
  the wrapper script, run it under the timeout and classify the outcome.
\<close>

definition run_script ::
  "os_env \<Rightarrow> CodeSandbox \<Rightarrow> string \<Rightarrow> os_state
     \<Rightarrow> py_exception + (SandboxResult \<times> CodeSandbox \<times> os_state)" where
  "run_script env sb code os =
     (case ensure_temp_dir env sb os of
        Inl e \<Rightarrow> Inl e
      | Inr (sb1, os1) \<Rightarrow>
          (let dir = (case temp_dir sb1 of None \<Rightarrow> [] | Some d \<Rightarrow> d);
               script_path = path_join dir ''_sandbox_script.py'';
               wrapper = create_wrapper_script code
           in case open_write_error env script_path of
                Some e \<Rightarrow>
                  Inr (sandbox_result SB_ERROR [] (''Failed to write script: '' @ e), sb1, os1)
              | None \<Rightarrow>
                  (let os2 = os1\<lparr>files_written := files_written os1 @ [(script_path, wrapper)]\<rparr>;
                       argv = [sys_executable env, script_path];
                       os3 = os2\<lparr>spawned := spawned os2 @ [(argv, dir)]\<rparr>
                   in case subprocess_run env os2 argv dir (timeout_seconds (config sb1)) of
                        Exited returncode out err \<Rightarrow>
                          (case (case json_loads env out of
                                   JSONDecodeError \<Rightarrow> Inr (out, err)
                                 | Payload o_out o_err o_error \<Rightarrow>
                                     Inr (o_out,
                                          o_err @ (case o_error of None \<Rightarrow> [] | Some m \<Rightarrow> m))
                                 | Malformed m \<Rightarrow> Inl m) of
                             Inl m \<Rightarrow>
                               Inr ((sandbox_result SB_ERROR [] m)
                                      \<lparr>execution_time := elapsed_in_handler env\<rparr>, sb1, os3)
                           | Inr (out', err') \<Rightarrow>
                               Inr (\<lparr>sb_status = (if returncode = 0 then SB_COMPLETED
                                                   else SB_ERROR),
                                     stdout = truncate_output (config sb1) out',
                                     stderr = truncate_output (config sb1) err',
                                     return_value = None,
                                     execution_time = elapsed env,
                                     memory_used_mb = 0\<rparr>, sb1, os3))
                      | TimeoutExpired partial_out partial_err \<Rightarrow>
                          Inr (\<lparr>sb_status = SB_TIMEOUT, stdout = [],
                                stderr = ''Execution timed out after ''
                                         @ str_int (timeout_seconds (config sb1)) @ ''s'',
                                return_value = None,
                                execution_time = real_of_int (timeout_seconds (config sb1)),
                                memory_used_mb = 0\<rparr>, sb1, os3)
                      | RunFailed m \<Rightarrow>
                          Inr ((sandbox_result SB_ERROR [] m)
                                 \<lparr>execution_time := elapsed_in_handler env\<rparr>, sb1, os2))))"

text \<open>
  \<open>CodeSandbox.execute\<close>: the status becomes \<open>RUNNING\<close>, then the static check;
  \<open>if import_error:\<close> tests the message for being there and non-empty.
\<close>

definition sandbox_execute ::
  "os_env \<Rightarrow> CodeSandbox \<Rightarrow> string \<Rightarrow> os_state
     \<Rightarrow> py_exception + (SandboxResult \<times> CodeSandbox \<times> os_state)" where
  "sandbox_execute env sb0 code os =
     (let sb = sb0\<lparr>sandbox_status := SB_RUNNING\<rparr>
      in case check_imports sb code of
           None \<Rightarrow> run_script env sb code os
         | Some import_error \<Rightarrow>
             if import_error \<noteq> [] then Inr (sandbox_result SB_ERROR [] import_error, sb, os)
             else run_script env sb code os)"

section \<open>Predicates used in the statements\<close>

text \<open>No step of the plan has more retries than its ceiling.\<close>

definition retries_bounded :: "ExecutionPlan \<Rightarrow> bool" where
  "retries_bounded plan = list_all (\<lambda>s. retry_count s \<le> max_retries s) (steps plan)"

text \<open>A privilege-escalated retry step: a shell step whose command is prefixed with sudo.\<close>

definition is_escalation_step :: "PlanStep \<Rightarrow> bool" where
  "is_escalation_step s =
     (tool s = ''shell'' \<and>
      (case params s ''command'' of Some (PStr c) \<Rightarrow> prefix ''sudo '' c | _ \<Rightarrow> False))"

text \<open>What a call of the recovery controller returned, and how often a run dispatched.\<close>

definition returned_step :: "py_exception + (ExecutionPlan \<times> nat option) \<Rightarrow> nat option" where
  "returned_step out = (case out of Inl e \<Rightarrow> None | Inr (plan, r) \<Rightarrow> r)"

definition dispatch_count :: "py_exception + (ExecutionResult \<times> 'w) \<Rightarrow> nat" where
  "dispatch_count out = (case out of Inl e \<Rightarrow> 0 | Inr (res, w) \<Rightarrow> length (er_steps res))"

section \<open>Example plans and environments\<close>

text \<open>
  Concrete inputs on which the theorems below are exercised. \<open>example_step\<close> is
  \<open>PlanStep(id, tool, params, description, depends_on, status)\<close> with the default retry
  fields.
\<close>

definition example_step ::
  "string \<Rightarrow> string \<Rightarrow> pydict \<Rightarrow> string list \<Rightarrow> StepStatus \<Rightarrow> PlanStep" where
  "example_step sid tname ps deps st =
     \<lparr>step_id = sid, tool = tname, params = ps, description = ''example'',
      depends_on = deps, status = st, step_result = None, step_error = None,
      retry_count = 0, max_retries = 2\<rparr>"

text \<open>
  A chain \<open>s1 \<leftarrow> s2 \<leftarrow> s3\<close> with \<open>s1\<close> completed, and a step \<open>s4\<close> whose dependency
  does not exist.
\<close>

definition chain_plan :: ExecutionPlan where
  "chain_plan =
     \<lparr>task = ''chain'',
      steps = [example_step ''s1'' ''shell'' Map.empty [] COMPLETED,
               example_step ''s2'' ''shell'' Map.empty [''s1''] PENDING,
               example_step ''s3'' ''shell'' Map.empty [''s2''] PENDING,
               example_step ''s4'' ''shell'' Map.empty [''s9''] PENDING],
      metadata = Map.empty\<rparr>"

text \<open>A plan whose steps are all in a terminal state.\<close>

definition settled_plan :: ExecutionPlan where
  "settled_plan =
     \<lparr>task = ''settled'',
      steps = [example_step ''s1'' ''shell'' Map.empty [] COMPLETED,
               example_step ''s2'' ''shell'' Map.empty [''s1''] FAILED,
               example_step ''s3'' ''shell'' Map.empty [] SKIPPED],
      metadata = Map.empty\<rparr>"

text \<open>
  An executor over an environment that only counts tool invocations: \<open>file_read\<close> always
  reports a missing file, \<open>search\<close> always succeeds, \<open>shell\<close> is always refused.
\<close>

definition missing_file_tool :: "nat Tool" where
  "missing_file_tool =
     \<lparr>tool_name = ''file_read'',
      parameters = [\<lparr>param_name = ''path'', param_type = ''string'',
                     param_description = ''Path to the file to read'', required = True,
                     param_default = PNone\<rparr>],
      tool_execute = (\<lambda>kwargs n.
         (tool_result ERROR [] (Some ''File not found: missing.txt''), Suc n))\<rparr>"

definition quiet_search_tool :: "nat Tool" where
  "quiet_search_tool =
     \<lparr>tool_name = ''search'',
      parameters = [\<lparr>param_name = ''pattern'', param_type = ''string'',
                     param_description = ''Regex pattern to search for'', required = True,
                     param_default = PNone\<rparr>],
      tool_execute = (\<lambda>kwargs n. (tool_result SUCCESS ''No matches found'' None, Suc n))\<rparr>"

definition refusing_shell_tool :: "nat Tool" where
  "refusing_shell_tool =
     \<lparr>tool_name = ''shell'',
      parameters = [\<lparr>param_name = ''command'', param_type = ''string'',
                     param_description = ''Shell command to execute'', required = True,
                     param_default = PNone\<rparr>],
      tool_execute = (\<lambda>kwargs n.
         (tool_result PERMISSION_DENIED [] (Some ''Permission denied: /etc/shadow''), Suc n))\<rparr>"

definition example_executor :: "nat AgenticExecutor" where
  "example_executor =
     \<lparr>registry = [''file_read'' \<mapsto> missing_file_tool, ''search'' \<mapsto> quiet_search_tool,
                  ''shell'' \<mapsto> refusing_shell_tool],
      max_steps = 50, on_step_complete = None\<rparr>"

text \<open>
  Plans with one step that has used up its retries and is being dispatched: a shell
  command, and a file read.
\<close>

definition exhausted_shell_plan :: ExecutionPlan where
  "exhausted_shell_plan =
     \<lparr>task = ''cat /etc/shadow'',
      steps = [(example_step ''step_1'' ''shell'' [''command'' \<mapsto> PStr ''cat /etc/shadow''] []
                  RUNNING)\<lparr>retry_count := 2\<rparr>],
      metadata = Map.empty\<rparr>"

definition exhausted_read_plan :: ExecutionPlan where
  "exhausted_read_plan =
     \<lparr>task = ''read file'',
      steps = [(example_step ''step_1'' ''file_read'' [''path'' \<mapsto> PStr ''data/missing.txt''] []
                  RUNNING)\<lparr>retry_count := 2\<rparr>],
      metadata = Map.empty\<rparr>"

text \<open>The shell plan after its escalation, with the escalated step out of retries too.\<close>

definition escalated_shell_plan :: ExecutionPlan where
  "escalated_shell_plan =
     \<lparr>task = ''cat /etc/shadow'',
      steps = [(example_step ''step_1'' ''shell'' [''command'' \<mapsto> PStr ''cat /etc/shadow''] []
                  RUNNING)\<lparr>retry_count := 2\<rparr>,
               (example_step ''step_2'' ''shell''
                  [''command'' \<mapsto> PStr ''sudo cat /etc/shadow''] [] RUNNING)\<lparr>retry_count := 2\<rparr>],
      metadata = Map.empty\<rparr>"

text \<open>A plan whose only step names a tool that the example registry does not know.\<close>

definition unknown_tool_plan :: ExecutionPlan where
  "unknown_tool_plan =
     \<lparr>task = ''deploy'',
      steps = [example_step ''step_1'' ''deploy'' Map.empty [] PENDING],
      metadata = Map.empty\<rparr>"

text \<open>
  An operating system in which every child process runs into the timeout after printing
  something, and a sandbox that has been entered (its scratch directory exists).
\<close>

definition slow_env :: os_env where
  "slow_env =
     \<lparr>mkdtemp = (\<lambda>prefix. Some (''/tmp/'' @ prefix @ ''k3x9'')),
      makedirs_ok = (\<lambda>d. True),
      open_write_error = (\<lambda>path. None),
      sys_executable = ''/usr/bin/python3'',
      subprocess_run = (\<lambda>os argv cwd t. TimeoutExpired ''partial output'' ''partial errors''),
      json_loads = (\<lambda>s. JSONDecodeError),
      elapsed = 1,
      elapsed_in_handler = 1\<rparr>"

definition entered_sandbox :: CodeSandbox where
  "entered_sandbox =
     \<lparr>config = default_config, temp_dir = Some ''/tmp/sandbox_k3x9'', sandbox_status = SB_READY\<rparr>"

definition untouched_os :: os_state where
  "untouched_os = \<lparr>dirs_created = [], files_written = [], spawned = []\<rparr>"

section \<open>Readiness and completion\<close>

lemma contains_iff_sublist: "contains sub s \<longleftrightarrow> sublist sub s"
  by (induction s) (auto simp: sublist_Cons_right)

lemma deps_met_iff:
  "deps_met plan ds \<longleftrightarrow>
     (\<forall>d \<in> set ds. \<exists>dep. get_step plan d = Some dep \<and> status dep = COMPLETED)"
  by (induction ds) (auto split: option.splits)

lemma ready_loop_filter:
  "ready_loop plan ss ready =
     ready @ filter (\<lambda>s. status s = PENDING \<and> deps_met plan (depends_on s)) ss"
  by (induction ss arbitrary: ready) auto

lemma ready_refs_loop_filter:
  "ready_refs_loop plan i ss ready =
     ready @ map (\<lambda>k. i + k)
       (filter (\<lambda>k. status (ss ! k) = PENDING \<and> deps_met plan (depends_on (ss ! k)))
          [0..<length ss])"
proof (induction ss arbitrary: i ready)
  case Nil
  show ?case by simp
next
  case (Cons s ss)
  have shift: "[0..<length (s # ss)] = 0 # map Suc [0..<length ss]"
    by (simp add: upt_conv_Cons map_Suc_upt del: upt_Suc)
  show ?case
    unfolding shift
    by (simp add: Cons.IH filter_map o_def)
qed

lemma ready_refs_filter:
  "ready_refs plan =
     filter (\<lambda>k. status (steps plan ! k) = PENDING \<and> deps_met plan (depends_on (steps plan ! k)))
       [0..<length (steps plan)]"
  by (simp add: ready_refs_def ready_refs_loop_filter)

lemma get_ready_steps_filter:
  "get_ready_steps plan =
     filter (\<lambda>s. status s = PENDING \<and> deps_met plan (depends_on s)) (steps plan)"
  by (simp add: get_ready_steps_def ready_loop_filter)

lemma filter_nth_upt:
  "map (\<lambda>k. xs ! k) (filter (\<lambda>k. P (xs ! k)) [0..<length xs]) = filter P xs"
proof -
  have "filter P (map (\<lambda>k. xs ! k) [0..<length xs]) = filter P xs"
    by (simp add: map_nth)
  then show ?thesis
    by (simp add: filter_map o_def)
qed

lemma ready_refs_deref:
  "map (\<lambda>k. steps plan ! k) (ready_refs plan) = get_ready_steps plan"
  unfolding ready_refs_filter get_ready_steps_filter
  by (rule filter_nth_upt [where P = "\<lambda>s. status s = PENDING \<and> deps_met plan (depends_on s)"])

lemma ready_refs_bound: "k \<in> set (ready_refs plan) \<Longrightarrow> k < length (steps plan)"
  by (simp add: ready_refs_filter)

section \<open>The recovery controller and the loop: basic facts\<close>

lemma add_step_steps:
  "steps (fst (add_step plan t ps d deps)) =
     steps plan @ [\<lparr>step_id = ''step_'' @ str_nat (length (steps plan) + 1), tool = t, params = ps,
                    description = d, depends_on = (case deps of None \<Rightarrow> [] | Some ds \<Rightarrow> ds),
                    status = PENDING, step_result = None, step_error = None,
                    retry_count = 0, max_retries = 2\<rparr>]"
  by (simp add: add_step_def Let_def)

lemma add_step_ref: "snd (add_step plan t ps d deps) = length (steps plan)"
  by (simp add: add_step_def Let_def)

lemma add_step_task: "task (fst (add_step plan t ps d deps)) = task plan"
  and add_step_metadata: "metadata (fst (add_step plan t ps d deps)) = metadata plan"
  by (simp_all add: add_step_def Let_def)

lemma retries_bounded_add_step:
  "retries_bounded plan \<Longrightarrow> retries_bounded (fst (add_step plan t ps d deps))"
  by (simp add: retries_bounded_def add_step_steps)

lemma retries_bounded_update:
  assumes "retries_bounded plan"
    and "i < length (steps plan) \<Longrightarrow> retry_count s \<le> max_retries s"
  shows "retries_bounded (plan\<lparr>steps := (steps plan)[i := s]\<rparr>)"
proof (cases "i < length (steps plan)")
  case True
  then show ?thesis
    using assms set_update_subset_insert [of "steps plan" i s]
    unfolding retries_bounded_def list_all_iff by auto
next
  case False
  then show ?thesis using assms(1) by (simp add: retries_bounded_def list_update_beyond not_less)
qed

lemma retries_bounded_nth:
  "retries_bounded plan \<Longrightarrow> i < length (steps plan) \<Longrightarrow>
   retry_count (steps plan ! i) \<le> max_retries (steps plan ! i)"
  by (simp add: retries_bounded_def list_all_length)

lemma plan_methods_bounded:
  assumes "retries_bounded plan"
  shows "retries_bounded (plan_file_read plan tsk context)"
    and "retries_bounded (plan_file_write plan tsk context)"
    and "retries_bounded (plan_search plan tsk context)"
    and "retries_bounded (plan_run_tests plan tsk context)"
    and "retries_bounded (plan_install plan tsk context)"
    and "retries_bounded (plan_git plan tsk context)"
    and "retries_bounded (plan_refactor plan tsk context)"
    and "retries_bounded (plan_shell plan tsk context)"
  unfolding plan_file_read_def plan_file_write_def plan_search_def plan_run_tests_def
    plan_install_def plan_git_def plan_refactor_def plan_shell_def Let_def split_beta
  by (intro retries_bounded_add_step assms)+

lemma planner_plan_bounded: "retries_bounded (planner_plan tsk context)"
proof -
  have e: "retries_bounded (new_plan tsk m)" for m
    by (simp add: retries_bounded_def new_plan_def)
  show ?thesis
    unfolding planner_plan_def Let_def
    by (simp only: plan_methods_bounded [OF e] if_split [where P = retries_bounded] simp_thms)
qed

lemma replan_retry:
  "can_retry (steps plan ! i) \<Longrightarrow>
   replan_on_failure plan i err =
     Inr (plan\<lparr>steps := (steps plan)
                 [i := (steps plan ! i)\<lparr>status := PENDING,
                                        retry_count := retry_count (steps plan ! i) + 1\<rparr>]\<rparr>,
          Some i)"
  by (simp add: replan_on_failure_def Let_def)

lemma replan_cases:
  assumes "replan_on_failure plan i err = Inr (plan', r)"
  shows "(can_retry (steps plan ! i) \<and> r = Some i \<and>
          plan' = plan\<lparr>steps := (steps plan)
                 [i := (steps plan ! i)\<lparr>status := PENDING,
                                        retry_count := retry_count (steps plan ! i) + 1\<rparr>]\<rparr>)
       \<or> (\<not> can_retry (steps plan ! i) \<and> r = None \<and> plan' = plan)
       \<or> (\<not> can_retry (steps plan ! i) \<and> r = Some (length (steps plan)) \<and>
           (\<exists>t ps d. plan' = fst (add_step plan t ps d None)))"
  using assms
  by (auto simp: replan_on_failure_def Let_def add_step_def split: if_splits option.splits pyval.splits prod.splits)

lemma replan_bounded:
  assumes "retries_bounded plan" and "replan_on_failure plan i err = Inr (plan', r)"
  shows "retries_bounded plan'"
  using replan_cases [OF assms(2)] assms(1)
  by (auto simp: can_retry_def intro!: retries_bounded_update retries_bounded_add_step)

lemma replan_length:
  assumes "replan_on_failure plan i err = Inr (plan', r)"
  shows "length (steps plan) \<le> length (steps plan')"
  using replan_cases [OF assms] by (auto simp: add_step_steps)


lemma try_recovery_bounded:
  assumes "retries_bounded plan" and "try_recovery plan i err = Inr plan'"
  shows "retries_bounded plan' \<and> length (steps plan) \<le> length (steps plan')"
proof -
  from assms(2) obtain p r where rp: "replan_on_failure plan i err = Inr (p, r)"
    and p': "plan' = (case r of None \<Rightarrow> p\<lparr>steps := (steps p)[i := (steps p ! i)\<lparr>status := FAILED, step_error := err\<rparr>]\<rparr> | Some x \<Rightarrow> p)"
    by (auto simp: try_recovery_def split: sum.splits option.splits)
  have b: "retries_bounded p" and l: "length (steps plan) \<le> length (steps p)"
    using replan_bounded [OF assms(1) rp] replan_length [OF rp] by auto
  show ?thesis
  proof (cases r)
    case None
    have "retries_bounded (p\<lparr>steps := (steps p)[i := (steps p ! i)\<lparr>status := FAILED, step_error := err\<rparr>]\<rparr>)"
      by (rule retries_bounded_update [OF b]) (simp add: retries_bounded_nth [OF b])
    then show ?thesis using None p' l by simp
  next
    case (Some x)
    then show ?thesis using b l p' by simp
  qed
qed

lemma execute_step_plan:
  assumes "execute_step ex plan i w = Inr (plan1, es, w1)"
  shows "plan1 = plan\<lparr>steps := (steps plan)[i := (steps plan ! i)\<lparr>status := RUNNING\<rparr>]\<rparr>"
  using assms by (auto simp: execute_step_def Let_def split: if_splits prod.splits)

lemma execute_step_result:
  assumes "execute_step ex plan i w = Inr (plan1, es, w1)"
  shows "es_result es = Some (fst (registry_execute (registry ex) (tool (steps plan ! i)) (params (steps plan ! i)) w))"
  using assms by (auto simp: execute_step_def Let_def split: if_splits prod.splits)

lemma run_ready_step_cases:
  assumes "run_ready_step ex i (plan, se, w) = Inr (plan', se', w')"
  obtains es res w1 plan1 where
    "plan1 = plan\<lparr>steps := (steps plan)[i := (steps plan ! i)\<lparr>status := RUNNING\<rparr>]\<rparr>"
    and "execute_step ex plan i w = Inr (plan1, es, w1)"
    and "es_result es = Some res" and "se' = se @ [es]"
    and "tr_status res = SUCCESS \<Longrightarrow>
           plan' = plan1\<lparr>steps := (steps plan1)
                     [i := (steps plan1 ! i)\<lparr>status := COMPLETED,
                                             step_result := Some (tr_output res)\<rparr>]\<rparr>"
    and "tr_status res \<noteq> SUCCESS \<Longrightarrow> try_recovery plan1 i (tr_error res) = Inr plan'"
proof -
  from assms obtain plan1 es w1 where e: "execute_step ex plan i w = Inr (plan1, es, w1)"
    by (cases "execute_step ex plan i w") (auto simp: run_ready_step_def)
  note p1 = execute_step_plan [OF e]
  obtain res where r: "es_result es = Some res"
    using execute_step_result [OF e] by blast
  have body: "(if tr_status res = SUCCESS then
                 Inr (plan1\<lparr>steps := (steps plan1)
                              [i := (steps plan1 ! i)\<lparr>status := COMPLETED,
                                                      step_result := Some (tr_output res)\<rparr>]\<rparr>,
                      se @ [es],
                      case on_step_complete ex of None \<Rightarrow> w1 | Some cb \<Rightarrow> cb es w1)
               else (case try_recovery plan1 i (tr_error res) of
                       Inl e \<Rightarrow> Inl e
                     | Inr plan2 \<Rightarrow>
                         Inr (plan2, se @ [es],
                              case on_step_complete ex of None \<Rightarrow> w1 | Some cb \<Rightarrow> cb es w1)))
              = Inr (plan', se', w')"
    using assms by (simp add: run_ready_step_def e r Let_def)
  have s: "se' = se @ [es]"
    using body by (cases "tr_status res = SUCCESS"; cases "try_recovery plan1 i (tr_error res)") auto
  have ok: "plan' = plan1\<lparr>steps := (steps plan1)
                     [i := (steps plan1 ! i)\<lparr>status := COMPLETED,
                                             step_result := Some (tr_output res)\<rparr>]\<rparr>"
    if "tr_status res = SUCCESS"
    using body that by simp
  have ko: "try_recovery plan1 i (tr_error res) = Inr plan'" if "tr_status res \<noteq> SUCCESS"
    using body that by (cases "try_recovery plan1 i (tr_error res)") auto
  show thesis
    using that [OF p1 e r s ok ko] by simp
qed

lemma run_ready_step_bounded:
  assumes "retries_bounded plan" and "run_ready_step ex i (plan, se, w) = Inr (plan', se', w')"
  shows "retries_bounded plan' \<and> length (steps plan) \<le> length (steps plan')"
proof (rule run_ready_step_cases [OF assms(2)])
  fix res :: ToolResult and plan1
  assume plan1: "plan1 = plan\<lparr>steps := (steps plan)[i := (steps plan ! i)\<lparr>status := RUNNING\<rparr>]\<rparr>"
    and ok: "tr_status res = SUCCESS \<Longrightarrow>
           plan' = plan1\<lparr>steps := (steps plan1)
                     [i := (steps plan1 ! i)\<lparr>status := COMPLETED,
                                             step_result := Some (tr_output res)\<rparr>]\<rparr>"
    and ko: "tr_status res \<noteq> SUCCESS \<Longrightarrow> try_recovery plan1 i (tr_error res) = Inr plan'"
  have b1: "retries_bounded plan1"
    unfolding plan1
    by (rule retries_bounded_update [OF assms(1)]) (simp add: retries_bounded_nth [OF assms(1)])
  have l1: "length (steps plan1) = length (steps plan)"
    by (simp add: plan1)
  show ?thesis
  proof (cases "tr_status res = SUCCESS")
    case True
    have "retries_bounded (plan1\<lparr>steps := (steps plan1)[i := (steps plan1 ! i)\<lparr>status := COMPLETED, step_result := Some (tr_output res)\<rparr>]\<rparr>)"
      by (rule retries_bounded_update [OF b1]) (simp add: retries_bounded_nth [OF b1])
    then show ?thesis using ok [OF True] l1 by simp
  next
    case False
    from try_recovery_bounded [OF b1 ko [OF False]] show ?thesis using l1 by simp
  qed
qed

lemma run_ready_steps_bounded:
  assumes "retries_bounded (fst st)" and "run_ready_steps ex refs st = Inr st'"
  shows "retries_bounded (fst st') \<and> length (steps (fst st)) \<le> length (steps (fst st'))"
  using assms
proof (induction refs arbitrary: st)
  case Nil
  then show ?case by simp
next
  case (Cons i refs)
  from Cons.prems(2) obtain st1 where s1: "run_ready_step ex i st = Inr st1"
    and rest: "run_ready_steps ex refs st1 = Inr st'"
    by (auto split: sum.splits)
  obtain plan se w where st: "st = (plan, se, w)" by (cases st)
  obtain plan1 se1 w1 where st1: "st1 = (plan1, se1, w1)" by (cases st1)
  have "retries_bounded plan1 \<and> length (steps plan) \<le> length (steps plan1)"
    using run_ready_step_bounded [of plan ex i se w plan1 se1 w1] Cons.prems(1) s1 st st1 by simp
  then show ?case
    using Cons.IH [of st1] rest st st1 by auto
qed

lemma agentic_loop_stop:
  "is_complete (fst st) \<or> max_steps ex \<le> iteration \<Longrightarrow>
   agentic_loop ex iteration st = Inr (iteration, st)"
  by (subst agentic_loop.simps) auto

lemma agentic_loop_stall:
  "\<not> is_complete (fst st) \<Longrightarrow> iteration < max_steps ex \<Longrightarrow> ready_refs (fst st) = [] \<Longrightarrow>
   agentic_loop ex iteration st = Inr (iteration + 1, st)"
  by (subst agentic_loop.simps) simp

lemma agentic_loop_pass:
  "\<not> is_complete (fst st) \<Longrightarrow> iteration < max_steps ex \<Longrightarrow> ready_refs (fst st) \<noteq> [] \<Longrightarrow>
   agentic_loop ex iteration st =
     (case run_ready_steps ex (ready_refs (fst st)) st of
        Inl e \<Rightarrow> Inl e
      | Inr st' \<Rightarrow> agentic_loop ex (iteration + 1) st')"
  by (subst agentic_loop.simps) (simp add: Let_def)

lemma agentic_loop_bounded:
  assumes "retries_bounded (fst st)" and "agentic_loop ex iteration st = Inr (iteration', st')"
  shows "retries_bounded (fst st')"
  using assms
proof (induction ex iteration st rule: agentic_loop.induct)
  case (1 ex iteration st)
  show ?case
  proof (cases "\<not> is_complete (fst st) \<and> iteration < max_steps ex")
    case False
    then have "agentic_loop ex iteration st = Inr (iteration, st)"
      by (intro agentic_loop_stop) auto
    then show ?thesis using "1.prems" by simp
  next
    case True
    show ?thesis
    proof (cases "ready_refs (fst st) = []")
      case e: True
      then have "agentic_loop ex iteration st = Inr (iteration + 1, st)"
        using True by (intro agentic_loop_stall) auto
      then show ?thesis using "1.prems" by simp
    next
      case ne: False
      have "agentic_loop ex iteration st =
              (case run_ready_steps ex (ready_refs (fst st)) st of
                 Inl e \<Rightarrow> Inl e | Inr st' \<Rightarrow> agentic_loop ex (iteration + 1) st')"
        using True ne by (intro agentic_loop_pass) auto
      with "1.prems"(2) obtain st1 where
        r: "run_ready_steps ex (ready_refs (fst st)) st = Inr st1"
        and l: "agentic_loop ex (iteration + 1) st1 = Inr (iteration', st')"
        by (auto split: sum.splits)
      have "retries_bounded (fst st1)"
        using run_ready_steps_bounded [OF "1.prems"(1) r] by simp
      then show ?thesis
        using "1.IH" [OF True refl refl ne r] l by simp
    qed
  qed
qed

lemma execute_bounded:
  assumes "execute ex tsk context w = Inr (res, w')"
  shows "retries_bounded (er_plan res)"
proof -
  from assms obtain it plan' se where
    l: "agentic_loop ex 0 (planner_plan tsk context, [], w) = Inr (it, plan', se, w')"
    and r: "er_plan res = plan'"
    by (auto simp: execute_def execute_plan_def Let_def split: sum.splits)
  show ?thesis
    using agentic_loop_bounded [OF _ l] planner_plan_bounded r by simp
qed

lemma first_failed_error_hd:
  "\<exists>s \<in> set ss. status s = FAILED \<Longrightarrow>
   first_failed_error ss = step_error (hd (filter (\<lambda>s. status s = FAILED) ss))"
  by (induction ss) auto

lemma first_failed_error_none:
  "\<forall>s \<in> set ss. status s \<noteq> FAILED \<Longrightarrow> first_failed_error ss = None"
  by (induction ss) auto

lemma execute_plan_summary:
  assumes "execute_plan ex tsk plan w = Inr (res, w')"
  shows "success res = list_all (\<lambda>step. status step = COMPLETED) (steps (er_plan res))"
    and "er_error res = (if \<not> success res then first_failed_error (steps (er_plan res)) else None)"
    and "\<exists>se. agentic_loop ex 0 (plan, [], w) = Inr (er_iterations res, er_plan res, se, w')"
  using assms
  by (auto simp: execute_plan_def Let_def split: sum.splits)

lemma replan_keeps_steps:
  assumes "replan_on_failure plan i err = Inr (plan', r)" and "j < length (steps plan)"
  shows "tool (steps plan' ! j) = tool (steps plan ! j)
       \<and> params (steps plan' ! j) = params (steps plan ! j)
       \<and> step_id (steps plan' ! j) = step_id (steps plan ! j)
       \<and> depends_on (steps plan' ! j) = depends_on (steps plan ! j)
       \<and> max_retries (steps plan' ! j) = max_retries (steps plan ! j)
       \<and> (j \<noteq> i \<longrightarrow> steps plan' ! j = steps plan ! j)"
  using replan_cases [OF assms(1)] assms(2)
  by (cases "j = i") (auto simp: add_step_steps nth_append)

lemma escalation_step_final:
  assumes "is_escalation_step (steps plan ! j)"
    and "replan_on_failure plan j err = Inr (plan', r)"
  shows "length (steps plan') = length (steps plan) \<and> (r = None \<or> r = Some j)"
proof -
  from assms(1) obtain c where t: "tool (steps plan ! j) = ''shell''"
    and c: "params (steps plan ! j) ''command'' = Some (PStr c)" and p: "prefix ''sudo '' c"
    by (auto simp: is_escalation_step_def split: option.splits pyval.splits)
  from p have p': "prefix ''sudo'' c"
    by (auto simp: prefix_def)
  show ?thesis
    using assms(2) t c p'
    by (auto simp: replan_on_failure_def Let_def dict_get_def split: if_splits option.splits)
qed

lemma replan_exhausted_denied:
  assumes "\<not> can_retry (steps plan ! i)" and "contains ''permission denied'' (lower error)"
    and "replan_on_failure plan i (Some error) = Inr (plan', r)"
  shows "(\<exists>new. steps plan' = steps plan @ [new] \<and> is_escalation_step new) \<longleftrightarrow>
         (tool (steps plan ! i) = ''shell'' \<and>
          (\<exists>cmd. dict_get (params (steps plan ! i)) ''command'' (PStr []) = PStr cmd
                 \<and> \<not> prefix ''sudo'' cmd))"
  using assms
  by (auto simp: replan_on_failure_def Let_def add_step_def is_escalation_step_def
           split: if_splits pyval.splits)

lemma replan_appended_tool:
  assumes "replan_on_failure plan i err = Inr (plan', r)"
    and "length (steps plan') \<noteq> length (steps plan)"
  shows "\<exists>t ps d. plan' = fst (add_step plan t ps d None) \<and>
           (t = ''search'' \<and> tool (steps plan ! i) = ''file_read''
            \<or> t = ''shell'' \<and> tool (steps plan ! i) = ''shell'')"
proof -
  have nc: "\<not> can_retry (steps plan ! i)"
    using replan_cases [OF assms(1)] assms(2) by auto
  obtain error where err: "err = Some error"
    using assms(1) nc by (cases err) (simp_all add: replan_on_failure_def Let_def)
  show ?thesis
  proof (cases "contains ''not found'' (lower error) \<and> tool (steps plan ! i) = ''file_read''")
    case True
    then show ?thesis
      using assms nc err
      by (cases "dict_get (params (steps plan ! i)) ''path'' (PStr [])")
         (auto simp: replan_on_failure_def Let_def split_beta)
  next
    case False
    then show ?thesis
      using assms nc err
      by (cases "dict_get (params (steps plan ! i)) ''command'' (PStr [])")
         (auto simp: replan_on_failure_def Let_def split_beta split: if_splits)
  qed
qed

lemma replan_non_shell:
  assumes "tool (steps plan ! i) \<noteq> ''shell''"
    and "replan_on_failure plan i err = Inr (plan', r)"
  shows "\<forall>new. steps plan' = steps plan @ [new] \<longrightarrow> tool new \<noteq> ''shell''"
proof (intro allI impI)
  fix new
  assume e: "steps plan' = steps plan @ [new]"
  then have "length (steps plan') \<noteq> length (steps plan)"
    by simp
  from replan_appended_tool [OF assms(2) this] assms(1) obtain ps d
    where "plan' = fst (add_step plan ''search'' ps d None)"
    by auto
  then show "tool new \<noteq> ''shell''"
    using e by (auto simp: add_step_steps)
qed

lemma replan_appends_at_most_one:
  assumes "replan_on_failure plan i err = Inr (plan', r)"
  shows "length (steps plan') = length (steps plan) \<or> (\<exists>new. steps plan' = steps plan @ [new])"
  using replan_cases [OF assms] by (auto simp: add_step_steps)

lemma try_recovery_keeps_steps:
  assumes "try_recovery plan i err = Inr plan'" and "j < length (steps plan)"
  shows "tool (steps plan' ! j) = tool (steps plan ! j)
       \<and> params (steps plan' ! j) = params (steps plan ! j)"
proof -
  from assms(1) obtain p r where rp: "replan_on_failure plan i err = Inr (p, r)"
    and p': "plan' = (case r of
                        None \<Rightarrow> p\<lparr>steps := (steps p)[i := (steps p ! i)\<lparr>status := FAILED, step_error := err\<rparr>]\<rparr>
                      | Some x \<Rightarrow> p)"
    by (auto simp: try_recovery_def split: sum.splits option.splits)
  have l: "j < length (steps p)"
    using replan_length [OF rp] assms(2) by simp
  have k: "tool (steps p ! j) = tool (steps plan ! j) \<and> params (steps p ! j) = params (steps plan ! j)"
    using replan_keeps_steps [OF rp assms(2)] by simp
  show ?thesis
    using p' k l by (cases r; cases "j = i") simp_all
qed

lemma run_ready_step_keeps_steps:
  assumes "run_ready_step ex i (plan, se, w) = Inr (plan', se', w')" and "j < length (steps plan)"
  shows "tool (steps plan' ! j) = tool (steps plan ! j)
       \<and> params (steps plan' ! j) = params (steps plan ! j)"
proof (rule run_ready_step_cases [OF assms(1)])
  fix res :: ToolResult and plan1
  assume plan1: "plan1 = plan\<lparr>steps := (steps plan)[i := (steps plan ! i)\<lparr>status := RUNNING\<rparr>]\<rparr>"
    and ok: "tr_status res = SUCCESS \<Longrightarrow>
           plan' = plan1\<lparr>steps := (steps plan1)
                     [i := (steps plan1 ! i)\<lparr>status := COMPLETED,
                                             step_result := Some (tr_output res)\<rparr>]\<rparr>"
    and ko: "tr_status res \<noteq> SUCCESS \<Longrightarrow> try_recovery plan1 i (tr_error res) = Inr plan'"
  have k1: "tool (steps plan1 ! j) = tool (steps plan ! j)
          \<and> params (steps plan1 ! j) = params (steps plan ! j)"
    and l1: "j < length (steps plan1)"
    using assms(2) by (cases "j = i"; simp add: plan1)+
  show ?thesis
  proof (cases "tr_status res = SUCCESS")
    case True
    show ?thesis
      using ok [OF True] k1 l1 by (cases "j = i") simp_all
  next
    case False
    from try_recovery_keeps_steps [OF ko [OF False] l1] k1 show ?thesis by simp
  qed
qed

lemma validate_loop_missing:
  assumes "p \<in> set ps" and "required p" and "kwargs (param_name p) = None"
  shows "\<exists>q \<in> set ps. required q \<and> kwargs (param_name q) = None \<and>
           validate_loop ps kwargs = Some (''Missing required parameter: '' @ param_name q)"
  using assms by (induction ps) auto

lemma try_recovery_other:
  assumes "try_recovery plan i err = Inr plan'" and "j < length (steps plan)" and "j \<noteq> i"
  shows "steps plan' ! j = steps plan ! j"
proof -
  from assms(1) obtain p r where rp: "replan_on_failure plan i err = Inr (p, r)"
    and p': "plan' = (case r of
                        None \<Rightarrow> p\<lparr>steps := (steps p)[i := (steps p ! i)\<lparr>status := FAILED, step_error := err\<rparr>]\<rparr>
                      | Some x \<Rightarrow> p)"
    by (auto simp: try_recovery_def split: sum.splits option.splits)
  have "steps p ! j = steps plan ! j"
    using replan_keeps_steps [OF rp assms(2)] assms(3) by simp
  then show ?thesis
    using p' assms(3) by (cases r) simp_all
qed

lemma run_ready_step_other:
  assumes "run_ready_step ex i (plan, se, w) = Inr (plan', se', w')"
    and "j < length (steps plan)" and "j \<noteq> i"
  shows "steps plan' ! j = steps plan ! j"
proof (rule run_ready_step_cases [OF assms(1)])
  fix res :: ToolResult and plan1
  assume plan1: "plan1 = plan\<lparr>steps := (steps plan)[i := (steps plan ! i)\<lparr>status := RUNNING\<rparr>]\<rparr>"
    and ok: "tr_status res = SUCCESS \<Longrightarrow>
           plan' = plan1\<lparr>steps := (steps plan1)
                     [i := (steps plan1 ! i)\<lparr>status := COMPLETED,
                                             step_result := Some (tr_output res)\<rparr>]\<rparr>"
    and ko: "tr_status res \<noteq> SUCCESS \<Longrightarrow> try_recovery plan1 i (tr_error res) = Inr plan'"
  have k1: "steps plan1 ! j = steps plan ! j" and l1: "j < length (steps plan1)"
    using assms(2,3) by (simp_all add: plan1)
  show ?thesis
  proof (cases "tr_status res = SUCCESS")
    case True
    show ?thesis
      using ok [OF True] k1 assms(3) by simp
  next
    case False
    from try_recovery_other [OF ko [OF False] l1 assms(3)] k1 show ?thesis by simp
  qed
qed

lemma run_ready_step_length:
  assumes "run_ready_step ex i (plan, se, w) = Inr (plan', se', w')"
  shows "length (steps plan) \<le> length (steps plan')"
proof (rule run_ready_step_cases [OF assms(1)])
  fix res :: ToolResult and plan1
  assume plan1: "plan1 = plan\<lparr>steps := (steps plan)[i := (steps plan ! i)\<lparr>status := RUNNING\<rparr>]\<rparr>"
    and ok: "tr_status res = SUCCESS \<Longrightarrow>
           plan' = plan1\<lparr>steps := (steps plan1)
                     [i := (steps plan1 ! i)\<lparr>status := COMPLETED,
                                             step_result := Some (tr_output res)\<rparr>]\<rparr>"
    and ko: "tr_status res \<noteq> SUCCESS \<Longrightarrow> try_recovery plan1 i (tr_error res) = Inr plan'"
  show ?thesis
  proof (cases "tr_status res = SUCCESS")
    case True
    show ?thesis using ok [OF True] by (simp add: plan1)
  next
    case False
    from ko [OF False] obtain p r where rp: "replan_on_failure plan1 i (tr_error res) = Inr (p, r)"
      and p': "length (steps plan') = length (steps p)"
      by (auto simp: try_recovery_def split: sum.splits option.splits)
    from replan_length [OF rp] p' show ?thesis by (simp add: plan1)
  qed
qed

lemma run_ready_steps_frozen:
  assumes "j \<notin> set refs" and "j < length (steps (fst st))"
    and "run_ready_steps ex refs st = Inr st'"
  shows "steps (fst st') ! j = steps (fst st) ! j \<and> j < length (steps (fst st'))"
  using assms
proof (induction refs arbitrary: st)
  case Nil
  then show ?case by simp
next
  case (Cons i refs)
  from Cons.prems(3) obtain st1 where s1: "run_ready_step ex i st = Inr st1"
    and rest: "run_ready_steps ex refs st1 = Inr st'"
    by (auto split: sum.splits)
  obtain plan se w where st: "st = (plan, se, w)" by (cases st)
  obtain plan1 se1 w1 where st1: "st1 = (plan1, se1, w1)" by (cases st1)
  have ne: "j \<noteq> i" and nr: "j \<notin> set refs"
    using Cons.prems(1) by auto
  have a: "steps plan1 ! j = steps plan ! j"
    using run_ready_step_other [of ex i plan se w plan1 se1 w1 j] s1 st st1 Cons.prems(2) ne
    by simp
  have b: "j < length (steps plan1)"
    using run_ready_step_length [of ex i plan se w plan1 se1 w1] s1 st st1 Cons.prems(2)
    by simp
  from Cons.IH [of st1] nr b rest st1 a st show ?case by simp
qed

lemma ready_refs_pending: "k \<in> set (ready_refs plan) \<Longrightarrow> status (steps plan ! k) = PENDING"
  by (simp add: ready_refs_filter)

lemma agentic_loop_frozen:
  assumes "j < length (steps (fst st))" and "status (steps (fst st) ! j) \<noteq> PENDING"
    and "agentic_loop ex iteration st = Inr (iteration', st')"
  shows "steps (fst st') ! j = steps (fst st) ! j"
  using assms
proof (induction ex iteration st rule: agentic_loop.induct)
  case (1 ex iteration st)
  show ?case
  proof (cases "\<not> is_complete (fst st) \<and> iteration < max_steps ex")
    case False
    then have "agentic_loop ex iteration st = Inr (iteration, st)"
      by (intro agentic_loop_stop) auto
    then show ?thesis using "1.prems" by simp
  next
    case True
    show ?thesis
    proof (cases "ready_refs (fst st) = []")
      case e: True
      then have "agentic_loop ex iteration st = Inr (iteration + 1, st)"
        using True by (intro agentic_loop_stall) auto
      then show ?thesis using "1.prems" by simp
    next
      case ne: False
      have "agentic_loop ex iteration st =
              (case run_ready_steps ex (ready_refs (fst st)) st of
                 Inl e \<Rightarrow> Inl e | Inr st' \<Rightarrow> agentic_loop ex (iteration + 1) st')"
        using True ne by (intro agentic_loop_pass) auto
      with "1.prems"(3) obtain st1 where
        r: "run_ready_steps ex (ready_refs (fst st)) st = Inr st1"
        and l: "agentic_loop ex (iteration + 1) st1 = Inr (iteration', st')"
        by (auto split: sum.splits)
      have nr: "j \<notin> set (ready_refs (fst st))"
        using ready_refs_pending [of j "fst st"] "1.prems"(2) by blast
      from run_ready_steps_frozen [OF nr "1.prems"(1) r]
      have f: "steps (fst st1) ! j = steps (fst st) ! j" and b: "j < length (steps (fst st1))"
        by simp_all
      from "1.IH" [OF True refl refl ne r b _ l] f "1.prems"(2)
      show ?thesis by simp
    qed
  qed
qed

lemma run_ready_step_substituted:
  assumes "run_ready_step ex i (plan, se, w) = Inr (plan', se', w')"
    and "i < length (steps plan)"
    and "length (steps plan') \<noteq> length (steps plan)"
  shows "steps plan' ! i = (steps plan ! i)\<lparr>status := RUNNING\<rparr>
       \<and> length (steps plan') = length (steps plan) + 1"
proof (rule run_ready_step_cases [OF assms(1)])
  fix res :: ToolResult and plan1
  assume plan1: "plan1 = plan\<lparr>steps := (steps plan)[i := (steps plan ! i)\<lparr>status := RUNNING\<rparr>]\<rparr>"
    and ok: "tr_status res = SUCCESS \<Longrightarrow>
           plan' = plan1\<lparr>steps := (steps plan1)
                     [i := (steps plan1 ! i)\<lparr>status := COMPLETED,
                                             step_result := Some (tr_output res)\<rparr>]\<rparr>"
    and ko: "tr_status res \<noteq> SUCCESS \<Longrightarrow> try_recovery plan1 i (tr_error res) = Inr plan'"
  have ns: "tr_status res \<noteq> SUCCESS"
    using ok assms(3) by (auto simp: plan1)
  from ko [OF ns] obtain p r where rp: "replan_on_failure plan1 i (tr_error res) = Inr (p, r)"
    and p': "plan' = (case r of
                        None \<Rightarrow> p\<lparr>steps := (steps p)[i := (steps p ! i)\<lparr>status := FAILED, step_error := tr_error res\<rparr>]\<rparr>
                      | Some x \<Rightarrow> p)"
    by (auto simp: try_recovery_def split: sum.splits option.splits)
  have lp: "length (steps p) \<noteq> length (steps plan1)"
    using p' assms(3) by (cases r) (simp_all add: plan1)
  from replan_cases [OF rp] lp
  obtain t ps d where r: "r = Some (length (steps plan1))"
    and p: "p = fst (add_step plan1 t ps d None)"
    by auto
  show ?thesis
    using p' r p assms(2) by (simp add: add_step_steps plan1 nth_append)
qed

section \<open>The sandbox: basic facts\<close>

lemma check_imports_loop_first:
  "check_imports_loop bs code =
     (case filter (\<lambda>b. contains b code) bs of
        [] \<Rightarrow> None
      | b # rest \<Rightarrow> Some (''Blocked import detected: '' @ b))"
  by (induction bs) auto

lemma check_imports_none:
  "(\<forall>b \<in> set (blocked_imports (config sb)). \<not> sublist b code) \<Longrightarrow>
   check_imports sb code = None"
  by (simp add: check_imports_def check_imports_loop_first contains_iff_sublist
        filter_False split: list.splits)

lemma ensure_temp_dir_config:
  assumes "ensure_temp_dir env sb os = Inr (sb1, os1)"
  shows "config sb1 = config sb"
  using assms
  by (auto simp: ensure_temp_dir_def sandbox_setup_def split: if_splits option.splits)

section \<open>Claims about the plan\<close>

text \<open>
  Claim C1. For every plan, \<open>get_ready_steps\<close> returns exactly the steps of the plan whose
  status is \<open>PENDING\<close> and all of whose dependency ids resolve through \<open>get_step\<close> to a
  step with status \<open>COMPLETED\<close> (a missing, failed or pending dependency excludes the
  step), and it returns them in insertion order: the result is the list of steps filtered
  by that condition.
\<close>

theorem C1_get_ready_steps:
  "get_ready_steps plan =
     filter (\<lambda>s. status s = PENDING \<and>
                 (\<forall>d \<in> set (depends_on s).
                    \<exists>dep. get_step plan d = Some dep \<and> status dep = COMPLETED))
       (steps plan)
   \<and> (s \<in> set (get_ready_steps plan) \<longleftrightarrow>
        s \<in> set (steps plan) \<and> status s = PENDING \<and>
        (\<forall>d \<in> set (depends_on s).
           \<exists>dep. get_step plan d = Some dep \<and> status dep = COMPLETED))"
  by (auto simp: get_ready_steps_filter deps_met_iff)

theorem C1_get_ready_steps_witness:
  "get_ready_steps chain_plan = [example_step ''s2'' ''shell'' Map.empty [''s1''] PENDING]
   \<and> depends_on (steps chain_plan ! 1) = [''s1'']
   \<and> (\<exists>dep. get_step chain_plan ''s1'' = Some dep \<and> status dep = COMPLETED)
   \<and> \<not> (\<forall>d \<in> set (depends_on (steps chain_plan ! 2)).
         \<exists>dep. get_step chain_plan d = Some dep \<and> status dep = COMPLETED)
   \<and> steps chain_plan ! 3 \<notin> set (get_ready_steps chain_plan)"
  using C1_get_ready_steps [of chain_plan "steps chain_plan ! 3"]
  by (simp add: chain_plan_def example_step_def get_step_def)

text \<open>
  Claim C8. For every plan, \<open>is_complete\<close> is true if and only if the status of every step
  is \<open>COMPLETED\<close>, \<open>FAILED\<close> or \<open>SKIPPED\<close>; equivalently, if and only if no step is
  \<open>PENDING\<close> or \<open>RUNNING\<close>.
\<close>

theorem C8_is_complete:
  "(is_complete plan \<longleftrightarrow>
      (\<forall>s \<in> set (steps plan). status s = COMPLETED \<or> status s = FAILED \<or> status s = SKIPPED))
   \<and> (is_complete plan \<longleftrightarrow>
      \<not> (\<exists>s \<in> set (steps plan). status s = PENDING \<or> status s = RUNNING))"
proof -
  have "status s = COMPLETED \<or> status s = FAILED \<or> status s = SKIPPED \<longleftrightarrow>
        \<not> (status s = PENDING \<or> status s = RUNNING)" for s :: PlanStep
    by (cases "status s") simp_all
  then show ?thesis
    by (simp add: is_complete_def list_all_iff)
qed

theorem C8_is_complete_witness:
  "is_complete settled_plan
   \<and> map status (steps settled_plan) = [COMPLETED, FAILED, SKIPPED]
   \<and> \<not> is_complete chain_plan
   \<and> (\<exists>s \<in> set (steps chain_plan). status s = PENDING \<or> status s = RUNNING)"
  using C8_is_complete [of settled_plan] C8_is_complete [of chain_plan]
  by (simp add: settled_plan_def chain_plan_def example_step_def)

section \<open>Claims about the recovery controller\<close>

text \<open>
  Claim C3. For every failed step whose retry counter is strictly below its retry ceiling,
  \<open>replan_on_failure\<close> returns that same step, with the retry counter incremented by one
  and the status reset to \<open>PENDING\<close>; every other field of the step (id, tool, params,
  depends_on among them), every other step and the rest of the plan are unchanged.
  Consequently the retry counter never exceeds the ceiling: the bound is kept by
  \<open>replan_on_failure\<close> and by every pass of the loop body, and it holds for every step of
  the final plan of every execution, whose plan the planner makes.
\<close>

theorem C3_retry_within_ceiling:
  "(i < length (steps plan) \<and> retry_count (steps plan ! i) < max_retries (steps plan ! i) \<longrightarrow>
      (\<exists>plan'. replan_on_failure plan i err = Inr (plan', Some i)
         \<and> length (steps plan') = length (steps plan)
         \<and> steps plan' ! i =
             (steps plan ! i)\<lparr>status := PENDING, retry_count := retry_count (steps plan ! i) + 1\<rparr>
         \<and> step_id (steps plan' ! i) = step_id (steps plan ! i)
         \<and> tool (steps plan' ! i) = tool (steps plan ! i)
         \<and> params (steps plan' ! i) = params (steps plan ! i)
         \<and> depends_on (steps plan' ! i) = depends_on (steps plan ! i)
         \<and> max_retries (steps plan' ! i) = max_retries (steps plan ! i)
         \<and> (\<forall>j. j \<noteq> i \<longrightarrow> steps plan' ! j = steps plan ! j)
         \<and> task plan' = task plan \<and> metadata plan' = metadata plan))
   \<and> (retries_bounded plan \<and> replan_on_failure plan i err = Inr (plan2, r) \<longrightarrow>
        retries_bounded plan2)
   \<and> (retries_bounded plan \<and> run_ready_step ex i (plan, se, w) = Inr (plan3, se', w') \<longrightarrow>
        retries_bounded plan3)
   \<and> (execute ex tsk ctx w = Inr (res, w') \<longrightarrow>
        (\<forall>s \<in> set (steps (er_plan res)). retry_count s \<le> max_retries s))"
proof (intro conjI impI)
  assume a: "i < length (steps plan) \<and> retry_count (steps plan ! i) < max_retries (steps plan ! i)"
  then have "can_retry (steps plan ! i)"
    by (simp add: can_retry_def)
  from replan_retry [OF this, of err] a
  show "\<exists>plan'. replan_on_failure plan i err = Inr (plan', Some i)
         \<and> length (steps plan') = length (steps plan)
         \<and> steps plan' ! i =
             (steps plan ! i)\<lparr>status := PENDING, retry_count := retry_count (steps plan ! i) + 1\<rparr>
         \<and> step_id (steps plan' ! i) = step_id (steps plan ! i)
         \<and> tool (steps plan' ! i) = tool (steps plan ! i)
         \<and> params (steps plan' ! i) = params (steps plan ! i)
         \<and> depends_on (steps plan' ! i) = depends_on (steps plan ! i)
         \<and> max_retries (steps plan' ! i) = max_retries (steps plan ! i)
         \<and> (\<forall>j. j \<noteq> i \<longrightarrow> steps plan' ! j = steps plan ! j)
         \<and> task plan' = task plan \<and> metadata plan' = metadata plan"
    by simp
next
  assume "retries_bounded plan \<and> replan_on_failure plan i err = Inr (plan2, r)"
  then show "retries_bounded plan2"
    using replan_bounded [of plan i err plan2 r] by simp
next
  assume "retries_bounded plan \<and> run_ready_step ex i (plan, se, w) = Inr (plan3, se', w')"
  then show "retries_bounded plan3"
    using run_ready_step_bounded [of plan ex i se w plan3 se' w'] by simp
next
  assume "execute ex tsk ctx w = Inr (res, w')"
  from execute_bounded [OF this]
  show "\<forall>s \<in> set (steps (er_plan res)). retry_count s \<le> max_retries s"
    by (simp add: retries_bounded_def list_all_iff)
qed

theorem C3_retry_within_ceiling_witness:
  "retry_count (steps chain_plan ! 1) < max_retries (steps chain_plan ! 1)
   \<and> (\<exists>plan'. replan_on_failure chain_plan 1 (Some ''boom'') = Inr (plan', Some 1)
         \<and> retry_count (steps plan' ! 1) = 1 \<and> status (steps plan' ! 1) = PENDING
         \<and> tool (steps plan' ! 1) = ''shell'' \<and> depends_on (steps plan' ! 1) = [''s1''])
   \<and> (\<exists>res w'. execute example_executor ''read file'' (Some [''path'' \<mapsto> PStr ''missing.txt'']) 0
                   = Inr (res, w')
         \<and> map retry_count (steps (er_plan res)) = [2, 0]
         \<and> map max_retries (steps (er_plan res)) = [2, 2]
         \<and> list_all (\<lambda>s. retry_count s \<le> max_retries s) (steps (er_plan res)))"
proof -
  have h1: "1 < length (steps chain_plan)
            \<and> retry_count (steps chain_plan ! 1) < max_retries (steps chain_plan ! 1)"
    by (simp add: chain_plan_def example_step_def)
  have v: "retry_count (steps chain_plan ! 1) = 0 \<and> tool (steps chain_plan ! 1) = ''shell''
           \<and> depends_on (steps chain_plan ! 1) = [''s1'']"
    by (simp add: chain_plan_def example_step_def)
  obtain res w' where
    e: "execute example_executor ''read file'' (Some [''path'' \<mapsto> PStr ''missing.txt'']) 0
          = Inr (res, w')"
    and rc: "map retry_count (steps (er_plan res)) = [2, 0]"
    and mr: "map max_retries (steps (er_plan res)) = [2, 2]"
  proof -
    have "case execute example_executor ''read file'' (Some [''path'' \<mapsto> PStr ''missing.txt'']) 0 of
            Inl e \<Rightarrow> False
          | Inr (res, w') \<Rightarrow> map retry_count (steps (er_plan res)) = [2, 0]
                            \<and> map max_retries (steps (er_plan res)) = [2, 2]"
      by code_simp
    then show thesis
      using that by (auto split: sum.splits)
  qed
  note c = C3_retry_within_ceiling
    [where i = 1 and plan = chain_plan and err = "Some ''boom''" and ex = example_executor
       and tsk = "''read file''" and ctx = "Some [''path'' \<mapsto> PStr ''missing.txt'']"
       and w = 0 and res = res and w' = w']
  from c h1 obtain plan' where
    "replan_on_failure chain_plan 1 (Some ''boom'') = Inr (plan', Some 1)"
    "steps plan' ! 1 = (steps chain_plan ! 1)
        \<lparr>status := PENDING, retry_count := retry_count (steps chain_plan ! 1) + 1\<rparr>"
    by blast
  moreover from c e have "\<forall>s \<in> set (steps (er_plan res)). retry_count s \<le> max_retries s"
    by blast
  ultimately show ?thesis
    using h1 v e rc mr by (auto simp: list_all_iff)
qed

text \<open>
  Claim C9. When a step that has used up its retries fails with an error indicating a
  permission denial, the recovery controller appends an escalated (sudo-prefixed) retry
  step only if the failed step's tool is the shell tool and its command does not already
  start with sudo (and then it does). There is at most one escalation per failure chain:
  one call appends at most one step; for an escalated step, whose tool and parameters the
  loop never changes, the controller never appends a step again; and the step that was
  substituted is left not pending, so the loop never dispatches it again. For a step of
  another tool no error yields an appended shell step.
\<close>

theorem C9_single_escalation:
  "(\<not> retry_count (steps plan ! i) < max_retries (steps plan ! i)
      \<and> contains ''permission denied'' (lower error)
      \<and> replan_on_failure plan i (Some error) = Inr (plan', r) \<longrightarrow>
        ((\<exists>new. steps plan' = steps plan @ [new] \<and> is_escalation_step new) \<longleftrightarrow>
           (tool (steps plan ! i) = ''shell'' \<and>
            (\<exists>cmd. dict_get (params (steps plan ! i)) ''command'' (PStr []) = PStr cmd
                   \<and> \<not> prefix ''sudo'' cmd)))
        \<and> (length (steps plan') = length (steps plan)
            \<or> (\<exists>new. steps plan' = steps plan @ [new])))
   \<and> (is_escalation_step (steps plan ! i) \<and> replan_on_failure plan i err = Inr (plan', r) \<longrightarrow>
        length (steps plan') = length (steps plan) \<and> (r = None \<or> r = Some i))
   \<and> (k < length (steps plan) \<and> run_ready_step ex i (plan, se, w) = Inr (plan', se', w') \<longrightarrow>
        tool (steps plan' ! k) = tool (steps plan ! k)
        \<and> params (steps plan' ! k) = params (steps plan ! k))
   \<and> (i < length (steps plan) \<and> run_ready_step ex i (plan, se, w) = Inr (plan', se', w')
        \<and> length (steps plan') \<noteq> length (steps plan) \<longrightarrow>
        status (steps plan' ! i) = RUNNING)
   \<and> (k < length (steps (fst st)) \<and> status (steps (fst st) ! k) \<noteq> PENDING
        \<and> agentic_loop ex iteration st = Inr (iteration', st') \<longrightarrow>
        steps (fst st') ! k = steps (fst st) ! k)
   \<and> (tool (steps plan ! i) \<noteq> ''shell'' \<and> replan_on_failure plan i err = Inr (plan', r) \<longrightarrow>
        (\<forall>new. steps plan' = steps plan @ [new] \<longrightarrow> tool new \<noteq> ''shell''))"
proof (intro conjI impI)
  assume a: "\<not> retry_count (steps plan ! i) < max_retries (steps plan ! i)
      \<and> contains ''permission denied'' (lower error)
      \<and> replan_on_failure plan i (Some error) = Inr (plan', r)"
  then have nc: "\<not> can_retry (steps plan ! i)"
    by (simp add: can_retry_def)
  from a replan_exhausted_denied [OF nc, of error plan' r]
  show "(\<exists>new. steps plan' = steps plan @ [new] \<and> is_escalation_step new) \<longleftrightarrow>
           (tool (steps plan ! i) = ''shell'' \<and>
            (\<exists>cmd. dict_get (params (steps plan ! i)) ''command'' (PStr []) = PStr cmd
                   \<and> \<not> prefix ''sudo'' cmd))"
    by simp
  from a replan_appends_at_most_one [of plan i "Some error" plan' r]
  show "length (steps plan') = length (steps plan) \<or> (\<exists>new. steps plan' = steps plan @ [new])"
    by simp
next
  assume a: "is_escalation_step (steps plan ! i) \<and> replan_on_failure plan i err = Inr (plan', r)"
  from a escalation_step_final [of plan i err plan' r]
  show "length (steps plan') = length (steps plan)" and "r = None \<or> r = Some i"
    by simp_all
next
  assume a: "k < length (steps plan) \<and> run_ready_step ex i (plan, se, w) = Inr (plan', se', w')"
  from a run_ready_step_keeps_steps [of ex i plan se w plan' se' w' k]
  show "tool (steps plan' ! k) = tool (steps plan ! k)"
    and "params (steps plan' ! k) = params (steps plan ! k)"
    by simp_all
next
  assume a: "i < length (steps plan) \<and> run_ready_step ex i (plan, se, w) = Inr (plan', se', w')
        \<and> length (steps plan') \<noteq> length (steps plan)"
  from a run_ready_step_substituted [of ex i plan se w plan' se' w']
  show "status (steps plan' ! i) = RUNNING"
    by simp
next
  assume a: "k < length (steps (fst st)) \<and> status (steps (fst st) ! k) \<noteq> PENDING
        \<and> agentic_loop ex iteration st = Inr (iteration', st')"
  from a agentic_loop_frozen [of k st ex iteration iteration' st']
  show "steps (fst st') ! k = steps (fst st) ! k"
    by simp
next
  assume a: "tool (steps plan ! i) \<noteq> ''shell'' \<and> replan_on_failure plan i err = Inr (plan', r)"
  from a replan_non_shell [of plan i err plan' r]
  show "\<forall>new. steps plan' = steps plan @ [new] \<longrightarrow> tool new \<noteq> ''shell''"
    by simp
qed

theorem C9_single_escalation_witness:
  "\<not> retry_count (steps exhausted_shell_plan ! 0) < max_retries (steps exhausted_shell_plan ! 0)
   \<and> contains ''permission denied'' (lower ''Permission denied: /etc/shadow'')
   \<and> tool (steps exhausted_shell_plan ! 0) = ''shell''
   \<and> (\<exists>plan' r new.
         replan_on_failure exhausted_shell_plan 0 (Some ''Permission denied: /etc/shadow'')
           = Inr (plan', r)
         \<and> steps plan' = steps exhausted_shell_plan @ [new] \<and> is_escalation_step new)
   \<and> is_escalation_step (steps escalated_shell_plan ! 1)
   \<and> (\<exists>plan' r.
         replan_on_failure escalated_shell_plan 1 (Some ''Permission denied: /etc/shadow'')
           = Inr (plan', r)
         \<and> length (steps plan') = length (steps escalated_shell_plan))
   \<and> (\<exists>plan' se' w'.
         run_ready_step example_executor 0 (exhausted_shell_plan, [], 0) = Inr (plan', se', w')
         \<and> length (steps plan') \<noteq> length (steps exhausted_shell_plan)
         \<and> tool (steps plan' ! 0) = tool (steps exhausted_shell_plan ! 0)
         \<and> params (steps plan' ! 0) = params (steps exhausted_shell_plan ! 0)
         \<and> status (steps plan' ! 0) = RUNNING)
   \<and> status (steps escalated_shell_plan ! 0) \<noteq> PENDING
   \<and> (\<exists>iteration' st'.
         agentic_loop example_executor 0 (escalated_shell_plan, [], 0) = Inr (iteration', st')
         \<and> steps (fst st') ! 0 = steps escalated_shell_plan ! 0)
   \<and> tool (steps exhausted_read_plan ! 0) \<noteq> ''shell''
   \<and> (\<exists>plan' r.
         replan_on_failure exhausted_read_plan 0 (Some ''Permission denied: /etc/shadow'')
           = Inr (plan', r)
         \<and> \<not> (\<exists>new. steps plan' = steps exhausted_read_plan @ [new] \<and> tool new = ''shell''))"
proof -
  let ?E = "''Permission denied: /etc/shadow''"
  have h1: "\<not> retry_count (steps exhausted_shell_plan ! 0)
              < max_retries (steps exhausted_shell_plan ! 0)"
    and h2: "contains ''permission denied'' (lower ?E)"
    and h3: "tool (steps exhausted_shell_plan ! 0) = ''shell''"
    and h4: "dict_get (params (steps exhausted_shell_plan ! 0)) ''command'' (PStr [])
               = PStr ''cat /etc/shadow''"
    and h5: "\<not> prefix ''sudo'' ''cat /etc/shadow''"
    and h6: "is_escalation_step (steps escalated_shell_plan ! 1)"
    and h7: "0 < length (steps exhausted_shell_plan)"
    and h8: "tool (steps exhausted_read_plan ! 0) \<noteq> ''shell''"
    and h9: "0 < length (steps (fst (escalated_shell_plan, [], 0::nat)))"
    and h10: "status (steps (fst (escalated_shell_plan, [], 0::nat)) ! 0) \<noteq> PENDING"
    by code_simp+
  obtain p1 r1 where e1:
    "replan_on_failure exhausted_shell_plan 0 (Some ?E) = Inr (p1, r1)"
  proof -
    have "case replan_on_failure exhausted_shell_plan 0 (Some ?E) of
            Inl e \<Rightarrow> False | Inr x \<Rightarrow> True"
      by code_simp
    then show thesis using that by (auto split: sum.splits)
  qed
  obtain p2 r2 where e2:
    "replan_on_failure escalated_shell_plan 1 (Some ?E) = Inr (p2, r2)"
  proof -
    have "case replan_on_failure escalated_shell_plan 1 (Some ?E) of
            Inl e \<Rightarrow> False | Inr x \<Rightarrow> True"
      by code_simp
    then show thesis using that by (auto split: sum.splits)
  qed
  obtain p3 se3 w3 where e3:
    "run_ready_step example_executor 0 (exhausted_shell_plan, [], 0) = Inr (p3, se3, w3)"
    and l3: "length (steps p3) \<noteq> length (steps exhausted_shell_plan)"
  proof -
    have "case run_ready_step example_executor 0 (exhausted_shell_plan, [], 0) of
            Inl e \<Rightarrow> False
          | Inr (p, se, w) \<Rightarrow> length (steps p) \<noteq> length (steps exhausted_shell_plan)"
      by code_simp
    then show thesis using that by (auto split: sum.splits)
  qed
  obtain p4 r4 where e4:
    "replan_on_failure exhausted_read_plan 0 (Some ?E) = Inr (p4, r4)"
  proof -
    have "case replan_on_failure exhausted_read_plan 0 (Some ?E) of
            Inl e \<Rightarrow> False | Inr x \<Rightarrow> True"
      by code_simp
    then show thesis using that by (auto split: sum.splits)
  qed
  obtain it5 st5 where e5:
    "agentic_loop example_executor 0 (escalated_shell_plan, [], 0) = Inr (it5, st5)"
  proof -
    have "case agentic_loop example_executor 0 (escalated_shell_plan, [], 0) of
            Inl e \<Rightarrow> False | Inr x \<Rightarrow> True"
      by code_simp
    then show thesis using that by (auto split: sum.splits)
  qed
  from C9_single_escalation
    [where plan = exhausted_shell_plan and i = 0 and error = ?E and plan' = p1 and r = r1,
      THEN conjunct1]
    h1 h2 h3 h4 h5 e1
  have a1: "\<exists>new. steps p1 = steps exhausted_shell_plan @ [new] \<and> is_escalation_step new"
    by blast
  from C9_single_escalation
    [where plan = escalated_shell_plan and i = 1 and err = "Some ?E" and plan' = p2 and r = r2,
      THEN conjunct2, THEN conjunct1]
    h6 e2
  have a2: "length (steps p2) = length (steps escalated_shell_plan)"
    by blast
  note c3 = C9_single_escalation
    [where plan = exhausted_shell_plan and i = 0 and k = 0 and ex = example_executor
       and se = "[]" and w = 0 and plan' = p3 and se' = se3 and w' = w3]
  from c3 [THEN conjunct2, THEN conjunct2, THEN conjunct1]
    c3 [THEN conjunct2, THEN conjunct2, THEN conjunct2, THEN conjunct1] h7 e3 l3
  have a3: "tool (steps p3 ! 0) = tool (steps exhausted_shell_plan ! 0)
            \<and> params (steps p3 ! 0) = params (steps exhausted_shell_plan ! 0)
            \<and> status (steps p3 ! 0) = RUNNING"
    by blast
  from C9_single_escalation
    [where plan = exhausted_read_plan and i = 0 and err = "Some ?E" and plan' = p4 and r = r4,
      THEN conjunct2, THEN conjunct2, THEN conjunct2, THEN conjunct2, THEN conjunct2]
    h8 e4
  have a4: "\<not> (\<exists>new. steps p4 = steps exhausted_read_plan @ [new] \<and> tool new = ''shell'')"
    by blast
  from C9_single_escalation
    [where k = 0 and st = "(escalated_shell_plan, [], 0::nat)" and ex = example_executor
       and iteration = 0 and iteration' = it5 and st' = st5,
      THEN conjunct2, THEN conjunct2, THEN conjunct2, THEN conjunct2, THEN conjunct1]
    h9 h10 e5
  have a5: "steps (fst st5) ! 0 = steps escalated_shell_plan ! 0"
    by simp
  from h10 have h10': "status (steps escalated_shell_plan ! 0) \<noteq> PENDING"
    by simp
  have c4: "\<exists>plan' r new.
         replan_on_failure exhausted_shell_plan 0 (Some ?E) = Inr (plan', r)
         \<and> steps plan' = steps exhausted_shell_plan @ [new] \<and> is_escalation_step new"
    using e1 a1 by blast
  have c6: "\<exists>plan' r.
         replan_on_failure escalated_shell_plan 1 (Some ?E) = Inr (plan', r)
         \<and> length (steps plan') = length (steps escalated_shell_plan)"
    using e2 a2 by blast
  have c7: "\<exists>plan' se' w'.
         run_ready_step example_executor 0 (exhausted_shell_plan, [], 0) = Inr (plan', se', w')
         \<and> length (steps plan') \<noteq> length (steps exhausted_shell_plan)
         \<and> tool (steps plan' ! 0) = tool (steps exhausted_shell_plan ! 0)
         \<and> params (steps plan' ! 0) = params (steps exhausted_shell_plan ! 0)
         \<and> status (steps plan' ! 0) = RUNNING"
    using e3 l3 a3 by (intro exI [of _ p3] exI [of _ se3] exI [of _ w3]) simp
  have c9: "\<exists>iteration' st'.
         agentic_loop example_executor 0 (escalated_shell_plan, [], 0) = Inr (iteration', st')
         \<and> steps (fst st') ! 0 = steps escalated_shell_plan ! 0"
    using e5 a5 by (intro exI [of _ it5] exI [of _ st5]) simp
  have c11: "\<exists>plan' r.
         replan_on_failure exhausted_read_plan 0 (Some ?E) = Inr (plan', r)
         \<and> \<not> (\<exists>new. steps plan' = steps exhausted_read_plan @ [new] \<and> tool new = ''shell'')"
    using e4 a4 by blast
  show ?thesis
    by (intro conjI h1 h2 h3 c4 h6 c6 c7 h10' c9 h8 c11)
qed

text \<open>
  Claim C4, as stated: a step that fails with a validation error (a missing required
  parameter or an unknown tool) is never retried automatically; \<open>replan_on_failure\<close> never
  returns it for re-attempt. The code has no such distinction. A step naming an unknown
  tool gets the error status at dispatch, the recovery controller returns this very step
  for re-attempt, and the loop dispatches it three times.
\<close>

theorem C4_validation_error_retried_counterexample:
  "tr_status (fst (registry_execute (registry example_executor) ''deploy'' Map.empty 0)) = ERROR
   \<and> tr_error (fst (registry_execute (registry example_executor) ''deploy'' Map.empty 0))
       = Some ''Unknown tool: deploy''
   \<and> returned_step (replan_on_failure unknown_tool_plan 0 (Some ''Unknown tool: deploy'')) = Some 0
   \<and> dispatch_count (execute_plan example_executor ''deploy'' unknown_tool_plan 0) = 3"
  by code_simp

text \<open>
  Claim C4, amended. A step that fails with a validation error receives an error status
  synchronously at dispatch time: for an unknown tool and for a missing required parameter
  \<open>ToolRegistry.execute\<close> returns status \<open>ERROR\<close> with empty output and the diagnostic,
  no tool runs and the environment is unchanged. The recovery path treats it like any
  other failure: \<open>replan_on_failure\<close> returns the step for re-attempt exactly when its
  retry counter is below its retry ceiling.
\<close>

theorem C4_validation_error:
  "(reg tname = None \<longrightarrow>
      registry_execute reg tname kwargs w
        = (tool_result ERROR [] (Some (''Unknown tool: '' @ tname)), w))
   \<and> (reg tname = Some t \<and> p \<in> set (parameters t) \<and> required p \<and> kwargs (param_name p) = None \<longrightarrow>
        (\<exists>q \<in> set (parameters t). required q \<and> kwargs (param_name q) = None \<and>
           registry_execute reg tname kwargs w
             = (tool_result ERROR [] (Some (''Missing required parameter: '' @ param_name q)), w)))
   \<and> (i < length (steps plan) \<and> replan_on_failure plan i err = Inr (plan', r) \<longrightarrow>
        (r = Some i \<longleftrightarrow> retry_count (steps plan ! i) < max_retries (steps plan ! i)))"
proof (intro conjI impI)
  assume "reg tname = None"
  then show "registry_execute reg tname kwargs w
               = (tool_result ERROR [] (Some (''Unknown tool: '' @ tname)), w)"
    by (simp add: registry_execute_def)
next
  assume a: "reg tname = Some t \<and> p \<in> set (parameters t) \<and> required p
             \<and> kwargs (param_name p) = None"
  then obtain q where q: "q \<in> set (parameters t)" "required q" "kwargs (param_name q) = None"
    and v: "validate_params t kwargs = Some (''Missing required parameter: '' @ param_name q)"
    using validate_loop_missing [of p "parameters t" kwargs] by (auto simp: validate_params_def)
  from a v have "registry_execute reg tname kwargs w
      = (tool_result ERROR [] (Some (''Missing required parameter: '' @ param_name q)), w)"
    by (simp add: registry_execute_def)
  with q show "\<exists>q \<in> set (parameters t). required q \<and> kwargs (param_name q) = None \<and>
           registry_execute reg tname kwargs w
             = (tool_result ERROR [] (Some (''Missing required parameter: '' @ param_name q)), w)"
    by blast
next
  assume a: "i < length (steps plan) \<and> replan_on_failure plan i err = Inr (plan', r)"
  then show "r = Some i \<longleftrightarrow> retry_count (steps plan ! i) < max_retries (steps plan ! i)"
    using replan_cases [of plan i err plan' r] by (auto simp: can_retry_def)
qed

theorem C4_validation_error_witness:
  "registry example_executor ''deploy'' = None
   \<and> registry_execute (registry example_executor) ''deploy'' Map.empty (0::nat)
       = (tool_result ERROR [] (Some ''Unknown tool: deploy''), 0)
   \<and> registry example_executor ''file_read'' = Some missing_file_tool
   \<and> (\<exists>q \<in> set (parameters missing_file_tool).
         registry_execute (registry example_executor) ''file_read'' Map.empty (0::nat)
           = (tool_result ERROR [] (Some (''Missing required parameter: '' @ param_name q)), 0))
   \<and> (\<exists>plan'. replan_on_failure unknown_tool_plan 0 (Some ''Unknown tool: deploy'')
               = Inr (plan', Some 0))
   \<and> retry_count (steps unknown_tool_plan ! 0) < max_retries (steps unknown_tool_plan ! 0)"
proof -
  have h1: "registry example_executor ''deploy'' = None"
    and h2: "registry example_executor ''file_read'' = Some missing_file_tool"
    by (simp_all add: example_executor_def)
  have h3: "hd (parameters missing_file_tool) \<in> set (parameters missing_file_tool)"
    and h4: "required (hd (parameters missing_file_tool))"
    and h5: "Map.empty (param_name (hd (parameters missing_file_tool))) = None"
    and h6: "0 < length (steps unknown_tool_plan)"
    and h7: "retry_count (steps unknown_tool_plan ! 0) < max_retries (steps unknown_tool_plan ! 0)"
    by (simp_all add: missing_file_tool_def unknown_tool_plan_def example_step_def)
  obtain plan' r where e:
    "replan_on_failure unknown_tool_plan 0 (Some ''Unknown tool: deploy'') = Inr (plan', r)"
    using replan_retry [of unknown_tool_plan 0 "Some ''Unknown tool: deploy''"] h7
    by (simp add: can_retry_def)
  note c1 = C4_validation_error
    [where reg = "registry example_executor" and tname = "''deploy''" and kwargs = Map.empty
       and w = "0::nat" and i = 0 and plan = unknown_tool_plan
       and err = "Some ''Unknown tool: deploy''" and plan' = plan' and r = r]
  note c2 = C4_validation_error
    [where reg = "registry example_executor" and tname = "''file_read''" and kwargs = Map.empty
       and w = "0::nat" and t = missing_file_tool and p = "hd (parameters missing_file_tool)"]
  from c1 h1 have a1: "registry_execute (registry example_executor) ''deploy'' Map.empty (0::nat)
       = (tool_result ERROR [] (Some ''Unknown tool: deploy''), 0)"
    by simp
  from c2 h2 h3 h4 h5 have a2: "\<exists>q \<in> set (parameters missing_file_tool).
         registry_execute (registry example_executor) ''file_read'' Map.empty (0::nat)
           = (tool_result ERROR [] (Some (''Missing required parameter: '' @ param_name q)), 0)"
    by blast
  from c1 h6 h7 e have "r = Some 0"
    by blast
  with e have a3: "\<exists>plan'. replan_on_failure unknown_tool_plan 0 (Some ''Unknown tool: deploy'')
               = Inr (plan', Some 0)"
    by blast
  show ?thesis
    using h1 h2 h7 a1 a2 a3 by blast
qed

section \<open>Claims about the orchestration loop\<close>

text \<open>
  Claim C7. For every task execution that returns a result, the success flag is true if
  and only if every step of the final plan has status \<open>COMPLETED\<close>; and whenever success
  is false and some step has status \<open>FAILED\<close>, the top-level error is the error message of
  the first \<open>FAILED\<close> step in plan order. (The same holds for the loop run on any plan.)
\<close>

theorem C7_success_and_first_error:
  "(execute ex tsk ctx w = Inr (res, w') \<longrightarrow>
      (success res \<longleftrightarrow> (\<forall>s \<in> set (steps (er_plan res)). status s = COMPLETED))
      \<and> (\<not> success res \<and> (\<exists>s \<in> set (steps (er_plan res)). status s = FAILED) \<longrightarrow>
           er_error res
             = step_error (hd (filter (\<lambda>s. status s = FAILED) (steps (er_plan res))))))
   \<and> (execute_plan ex tsk plan w = Inr (res2, w2) \<longrightarrow>
      (success res2 \<longleftrightarrow> (\<forall>s \<in> set (steps (er_plan res2)). status s = COMPLETED))
      \<and> (\<not> success res2 \<and> (\<exists>s \<in> set (steps (er_plan res2)). status s = FAILED) \<longrightarrow>
           er_error res2
             = step_error (hd (filter (\<lambda>s. status s = FAILED) (steps (er_plan res2))))))"
proof -
  have main: "(success r \<longleftrightarrow> (\<forall>s \<in> set (steps (er_plan r)). status s = COMPLETED))
      \<and> (\<not> success r \<and> (\<exists>s \<in> set (steps (er_plan r)). status s = FAILED) \<longrightarrow>
           er_error r = step_error (hd (filter (\<lambda>s. status s = FAILED) (steps (er_plan r)))))"
    if "execute_plan ex tsk p w = Inr (r, v)" for p r v
    using execute_plan_summary(1,2) [OF that]
    by (simp add: list_all_iff first_failed_error_hd)
  show ?thesis
    using main [of "planner_plan tsk ctx" res w'] main [of plan res2 w2]
    by (simp add: execute_def)
qed

theorem C7_success_and_first_error_witness:
  "\<exists>res w'. execute example_executor ''cat /etc/shadow'' None 0 = Inr (res, w')
      \<and> map status (steps (er_plan res)) = [RUNNING, FAILED]
      \<and> \<not> success res
      \<and> er_error res = Some ''Permission denied: /etc/shadow''
      \<and> er_error res = step_error (steps (er_plan res) ! 1)"
proof -
  obtain res w' where
    e: "execute example_executor ''cat /etc/shadow'' None 0 = Inr (res, w')"
    and st: "map status (steps (er_plan res)) = [RUNNING, FAILED]"
    and se: "step_error (steps (er_plan res) ! 1) = Some ''Permission denied: /etc/shadow''"
  proof -
    have "case execute example_executor ''cat /etc/shadow'' None 0 of
            Inl e \<Rightarrow> False
          | Inr (res, w') \<Rightarrow> map status (steps (er_plan res)) = [RUNNING, FAILED]
              \<and> step_error (steps (er_plan res) ! 1) = Some ''Permission denied: /etc/shadow''"
      by code_simp
    then show thesis
      using that by (auto split: sum.splits)
  qed
  from st obtain s0 s1 where ss: "steps (er_plan res) = [s0, s1]"
    and s0: "status s0 = RUNNING" and s1: "status s1 = FAILED"
    by (auto simp: map_eq_Cons_conv)
  have f: "\<exists>s \<in> set (steps (er_plan res)). status s = FAILED"
    and nc: "\<not> (\<forall>s \<in> set (steps (er_plan res)). status s = COMPLETED)"
    and h: "hd (filter (\<lambda>s. status s = FAILED) (steps (er_plan res))) = steps (er_plan res) ! 1"
    using ss s0 s1 by simp_all
  note c = C7_success_and_first_error
    [where ex = example_executor and tsk = "''cat /etc/shadow''" and ctx = None and w = 0
       and res = res and w' = w']
  from c e nc have ns: "\<not> success res"
    by blast
  from c e ns f have "er_error res
      = step_error (hd (filter (\<lambda>s. status s = FAILED) (steps (er_plan res))))"
    by blast
  with h se have e1: "er_error res = Some ''Permission denied: /etc/shadow''"
    and e2: "er_error res = step_error (steps (er_plan res) ! 1)"
    by simp_all
  show ?thesis
    by (intro exI [of _ res] exI [of _ w'] conjI e st ns e1 e2)
qed

text \<open>
  Claim C10. A freshly constructed plan with zero steps is vacuously complete:
  \<open>is_complete\<close> is true and \<open>get_ready_steps\<close> is empty, so the orchestration loop over
  such a plan performs zero iterations, dispatches nothing, leaves the environment as it
  is and reports success with no error.
\<close>

theorem C10_empty_plan:
  "is_complete (new_plan t m)
   \<and> get_ready_steps (new_plan t m) = []
   \<and> agentic_loop ex 0 (new_plan t m, [], w) = Inr (0, new_plan t m, [], w)
   \<and> execute_plan ex t (new_plan t m) w
       = Inr (\<lparr>er_task = t, success = True, er_steps = [], er_error = None,
               er_plan = new_plan t m, er_iterations = 0\<rparr>, w)"
proof -
  have c: "is_complete (new_plan t m)"
    by (simp add: is_complete_def new_plan_def)
  have l: "agentic_loop ex 0 (new_plan t m, [], w) = Inr (0, new_plan t m, [], w)"
    by (rule agentic_loop_stop) (simp add: c)
  show ?thesis
    by (simp add: c l get_ready_steps_def execute_plan_def) (simp add: new_plan_def)
qed

text \<open>
  Claim C2 at a concrete input. The planner's plan for reading \<open>missing.txt\<close> is run with a
  \<open>file_read\<close> tool that reports the file as not found. After two retries the recovery
  controller appends one search step with no dependencies, and the last pass of the loop
  finds nothing ready. In the final plan the original step still has status \<open>RUNNING\<close>,
  which is no terminal status: the plan is not complete, the run is unsuccessful and carries
  no error message. The same is seen for one pass of the loop body on a plan whose step is
  out of retries. (In general, whenever the loop body appends a substitute step, the
  original step keeps the status \<open>RUNNING\<close>, and no later pass of the loop changes a step
  that is not pending: lemmas \<open>run_ready_step_substituted\<close> and \<open>agentic_loop_frozen\<close>.)
\<close>

theorem C2_failed_step_left_running:
  "(case execute example_executor ''read file'' (Some [''path'' \<mapsto> PStr ''missing.txt'']) 0 of
      Inl e \<Rightarrow> False
    | Inr (res, w) \<Rightarrow>
        map tool (steps (er_plan res)) = [''file_read'', ''search'']
        \<and> map depends_on (steps (er_plan res)) = [[], []]
        \<and> map retry_count (steps (er_plan res)) = [2, 0]
        \<and> map status (steps (er_plan res)) = [RUNNING, COMPLETED]
        \<and> \<not> is_complete (er_plan res)
        \<and> \<not> success res \<and> er_error res = None \<and> er_iterations res = 5)
   \<and> (case run_ready_step example_executor 0 (exhausted_read_plan, [], 0) of
        Inl e \<Rightarrow> False
      | Inr (plan', se, w) \<Rightarrow>
          map tool (steps plan') = [''file_read'', ''search'']
          \<and> map depends_on (steps plan') = [[], []]
          \<and> params (steps plan' ! 1) ''pattern'' = Some (PStr ''missing.txt'')
          \<and> map status (steps plan') = [RUNNING, PENDING])"
  by code_simp

section \<open>Claims about the sandbox\<close>

text \<open>
  Claim C5. For every code string that contains a configured denylist marker as a
  substring, \<open>CodeSandbox.execute\<close> returns a result with status error, empty stdout, the
  diagnostic naming the blocked marker (the first one of the denylist that the code
  contains), zero execution time and zero memory; the state of the operating system is the
  one before the call: no process spawned, no file written, no directory created.
\<close>

theorem C5_denylisted_code_rejected:
  "(\<exists>b \<in> set (blocked_imports (config sb)). sublist b code) \<longrightarrow>
     hd (filter (\<lambda>b. sublist b code) (blocked_imports (config sb)))
       \<in> set (blocked_imports (config sb))
     \<and> sublist (hd (filter (\<lambda>b. sublist b code) (blocked_imports (config sb)))) code
     \<and> sandbox_execute env sb code os =
         Inr (\<lparr>sb_status = SB_ERROR, stdout = [],
               stderr = ''Blocked import detected: ''
                        @ hd (filter (\<lambda>b. sublist b code) (blocked_imports (config sb))),
               return_value = None, execution_time = 0, memory_used_mb = 0\<rparr>,
              sb\<lparr>sandbox_status := SB_RUNNING\<rparr>, os)"
proof
  let ?hits = "filter (\<lambda>b. sublist b code) (blocked_imports (config sb))"
  assume "\<exists>b \<in> set (blocked_imports (config sb)). sublist b code"
  then have ne: "?hits \<noteq> []"
    by (simp add: filter_empty_conv)
  then obtain b rest where hits: "?hits = b # rest"
    by (cases ?hits) auto
  have "hd ?hits \<in> set ?hits"
    by (rule hd_in_set [OF ne])
  then have m: "hd ?hits \<in> set (blocked_imports (config sb))" and c: "sublist (hd ?hits) code"
    by simp_all
  have "check_imports (sb\<lparr>sandbox_status := SB_RUNNING\<rparr>) code
          = Some (''Blocked import detected: '' @ hd ?hits)"
    using hits by (simp add: check_imports_def check_imports_loop_first contains_iff_sublist)
  then have "sandbox_execute env sb code os =
         Inr (\<lparr>sb_status = SB_ERROR, stdout = [],
               stderr = ''Blocked import detected: '' @ hd ?hits,
               return_value = None, execution_time = 0, memory_used_mb = 0\<rparr>,
              sb\<lparr>sandbox_status := SB_RUNNING\<rparr>, os)"
    by (simp add: sandbox_execute_def sandbox_result_def)
  with m c show "hd ?hits \<in> set (blocked_imports (config sb)) \<and> sublist (hd ?hits) code
     \<and> sandbox_execute env sb code os =
         Inr (\<lparr>sb_status = SB_ERROR, stdout = [],
               stderr = ''Blocked import detected: '' @ hd ?hits,
               return_value = None, execution_time = 0, memory_used_mb = 0\<rparr>,
              sb\<lparr>sandbox_status := SB_RUNNING\<rparr>, os)"
    by simp
qed

theorem C5_denylisted_code_rejected_witness:
  "sublist ''subprocess'' ''import subprocess''
   \<and> ''subprocess'' \<in> set (blocked_imports (config entered_sandbox))
   \<and> sandbox_execute slow_env entered_sandbox ''import subprocess'' untouched_os =
       Inr (\<lparr>sb_status = SB_ERROR, stdout = [],
             stderr = ''Blocked import detected: subprocess'',
             return_value = None, execution_time = 0, memory_used_mb = 0\<rparr>,
            entered_sandbox\<lparr>sandbox_status := SB_RUNNING\<rparr>, untouched_os)"
proof -
  have s: "sublist ''subprocess'' ''import subprocess''"
    by (simp add: contains_iff_sublist [symmetric])
  have b: "''subprocess'' \<in> set (blocked_imports (config entered_sandbox))"
    by (simp add: entered_sandbox_def default_config_def)
  have f: "filter (\<lambda>b. sublist b ''import subprocess'') (blocked_imports (config entered_sandbox))
             = [''subprocess'']"
    by (simp add: entered_sandbox_def default_config_def contains_iff_sublist [symmetric])
  from C5_denylisted_code_rejected
    [of entered_sandbox "''import subprocess''" slow_env untouched_os] s b
  have "sandbox_execute slow_env entered_sandbox ''import subprocess'' untouched_os =
       Inr (\<lparr>sb_status = SB_ERROR, stdout = [],
             stderr = ''Blocked import detected: ''
                      @ hd (filter (\<lambda>b. sublist b ''import subprocess'')
                              (blocked_imports (config entered_sandbox))),
             return_value = None, execution_time = 0, memory_used_mb = 0\<rparr>,
            entered_sandbox\<lparr>sandbox_status := SB_RUNNING\<rparr>, untouched_os)"
    by blast
  then show ?thesis
    using s b by (simp add: f)
qed

text \<open>
  Claim C6. For every execution whose spawned process exceeds the configured wall-clock
  timeout (the code passes the static check, the scratch directory is there or is set up,
  the script is written, and running it raises \<open>TimeoutExpired\<close>), \<open>CodeSandbox.execute\<close>
  returns a result with status timeout, empty stdout, the message
  \<open>Execution timed out after <timeout_seconds>s\<close> in stderr and \<open>execution_time\<close> equal to
  the configured \<open>timeout_seconds\<close>. The output that the killed process had produced is
  not in the result.
\<close>

theorem C6_timeout_result:
  "(\<forall>b \<in> set (blocked_imports (config sb)). \<not> sublist b code)
   \<and> ensure_temp_dir env (sb\<lparr>sandbox_status := SB_RUNNING\<rparr>) os = Inr (sb1, os1)
   \<and> temp_dir sb1 = Some d
   \<and> open_write_error env (path_join d ''_sandbox_script.py'') = None
   \<and> subprocess_run env
        (os1\<lparr>files_written := files_written os1
                @ [(path_join d ''_sandbox_script.py'', create_wrapper_script code)]\<rparr>)
        [sys_executable env, path_join d ''_sandbox_script.py''] d (timeout_seconds (config sb))
       = TimeoutExpired partial_out partial_err
   \<longrightarrow>
     sandbox_execute env sb code os =
       Inr (\<lparr>sb_status = SB_TIMEOUT, stdout = [],
             stderr = ''Execution timed out after '' @ str_int (timeout_seconds (config sb)) @ ''s'',
             return_value = None,
             execution_time = real_of_int (timeout_seconds (config sb)),
             memory_used_mb = 0\<rparr>,
            sb1,
            os1\<lparr>files_written := files_written os1
                    @ [(path_join d ''_sandbox_script.py'', create_wrapper_script code)],
                spawned := spawned os1
                    @ [([sys_executable env, path_join d ''_sandbox_script.py''], d)]\<rparr>)"
proof
  assume a: "(\<forall>b \<in> set (blocked_imports (config sb)). \<not> sublist b code)
   \<and> ensure_temp_dir env (sb\<lparr>sandbox_status := SB_RUNNING\<rparr>) os = Inr (sb1, os1)
   \<and> temp_dir sb1 = Some d
   \<and> open_write_error env (path_join d ''_sandbox_script.py'') = None
   \<and> subprocess_run env
        (os1\<lparr>files_written := files_written os1
                @ [(path_join d ''_sandbox_script.py'', create_wrapper_script code)]\<rparr>)
        [sys_executable env, path_join d ''_sandbox_script.py''] d (timeout_seconds (config sb))
       = TimeoutExpired partial_out partial_err"
  then have chk: "check_imports (sb\<lparr>sandbox_status := SB_RUNNING\<rparr>) code = None"
    using check_imports_none [of "sb\<lparr>sandbox_status := SB_RUNNING\<rparr>" code] by simp
  from a have cfg: "config sb1 = config sb"
    using ensure_temp_dir_config [of env "sb\<lparr>sandbox_status := SB_RUNNING\<rparr>" os sb1 os1] by simp
  have "run_script env (sb\<lparr>sandbox_status := SB_RUNNING\<rparr>) code os =
       Inr (\<lparr>sb_status = SB_TIMEOUT, stdout = [],
             stderr = ''Execution timed out after '' @ str_int (timeout_seconds (config sb)) @ ''s'',
             return_value = None,
             execution_time = real_of_int (timeout_seconds (config sb)),
             memory_used_mb = 0\<rparr>,
            sb1,
            os1\<lparr>files_written := files_written os1
                    @ [(path_join d ''_sandbox_script.py'', create_wrapper_script code)],
                spawned := spawned os1
                    @ [([sys_executable env, path_join d ''_sandbox_script.py''], d)]\<rparr>)"
    using a by (simp add: run_script_def Let_def cfg)
  then show "sandbox_execute env sb code os =
       Inr (\<lparr>sb_status = SB_TIMEOUT, stdout = [],
             stderr = ''Execution timed out after '' @ str_int (timeout_seconds (config sb)) @ ''s'',
             return_value = None,
             execution_time = real_of_int (timeout_seconds (config sb)),
             memory_used_mb = 0\<rparr>,
            sb1,
            os1\<lparr>files_written := files_written os1
                    @ [(path_join d ''_sandbox_script.py'', create_wrapper_script code)],
                spawned := spawned os1
                    @ [([sys_executable env, path_join d ''_sandbox_script.py''], d)]\<rparr>)"
    by (simp add: sandbox_execute_def chk)
qed

theorem C6_timeout_result_witness:
  "\<not> (\<exists>b \<in> set (blocked_imports (config entered_sandbox)).
          sublist b ''import time; time.sleep(60)'')
   \<and> subprocess_run slow_env
        (untouched_os\<lparr>files_written :=
            [(''/tmp/sandbox_k3x9/_sandbox_script.py'',
              create_wrapper_script ''import time; time.sleep(60)'')]\<rparr>)
        [''/usr/bin/python3'', ''/tmp/sandbox_k3x9/_sandbox_script.py''] ''/tmp/sandbox_k3x9'' 30
       = TimeoutExpired ''partial output'' ''partial errors''
   \<and> sandbox_execute slow_env entered_sandbox ''import time; time.sleep(60)'' untouched_os =
       Inr (\<lparr>sb_status = SB_TIMEOUT, stdout = [],
             stderr = ''Execution timed out after 30s'',
             return_value = None, execution_time = 30, memory_used_mb = 0\<rparr>,
            entered_sandbox\<lparr>sandbox_status := SB_RUNNING\<rparr>,
            \<lparr>dirs_created = [],
             files_written = [(''/tmp/sandbox_k3x9/_sandbox_script.py'',
                               create_wrapper_script ''import time; time.sleep(60)'')],
             spawned = [([''/usr/bin/python3'', ''/tmp/sandbox_k3x9/_sandbox_script.py''],
                         ''/tmp/sandbox_k3x9'')]\<rparr>)"
proof -
  let ?code = "''import time; time.sleep(60)''"
  let ?d = "''/tmp/sandbox_k3x9''"
  have h1: "\<forall>b \<in> set (blocked_imports (config entered_sandbox)). \<not> sublist b ?code"
    by (simp add: entered_sandbox_def default_config_def contains_iff_sublist [symmetric])
  have h2: "ensure_temp_dir slow_env (entered_sandbox\<lparr>sandbox_status := SB_RUNNING\<rparr>) untouched_os
              = Inr (entered_sandbox\<lparr>sandbox_status := SB_RUNNING\<rparr>, untouched_os)"
    by (simp add: ensure_temp_dir_def entered_sandbox_def)
  have h3: "temp_dir (entered_sandbox\<lparr>sandbox_status := SB_RUNNING\<rparr>) = Some ?d"
    by (simp add: entered_sandbox_def)
  have p: "path_join ?d ''_sandbox_script.py'' = ''/tmp/sandbox_k3x9/_sandbox_script.py''"
    by (simp add: path_join_def)
  have h4: "open_write_error slow_env (path_join ?d ''_sandbox_script.py'') = None"
    by (simp add: slow_env_def)
  have h5: "subprocess_run slow_env os' argv cwd t
              = TimeoutExpired ''partial output'' ''partial errors''" for os' argv cwd t
    by (simp add: slow_env_def)
  have t: "timeout_seconds (config entered_sandbox) = 30"
    and x: "sys_executable slow_env = ''/usr/bin/python3''"
    by (simp_all add: entered_sandbox_def default_config_def slow_env_def)
  have s: "str_int 30 = ''30''"
    by code_simp
  from C6_timeout_result
    [where sb = entered_sandbox and code = ?code and env = slow_env and os = untouched_os
       and ?sb1.0 = "entered_sandbox\<lparr>sandbox_status := SB_RUNNING\<rparr>"
       and ?os1.0 = untouched_os and d = ?d
       and partial_out = "''partial output''" and partial_err = "''partial errors''"]
    h1 h2 h3 h4 h5
  have "sandbox_execute slow_env entered_sandbox ?code untouched_os =
       Inr (\<lparr>sb_status = SB_TIMEOUT, stdout = [],
             stderr = ''Execution timed out after ''
                      @ str_int (timeout_seconds (config entered_sandbox)) @ ''s'',
             return_value = None,
             execution_time = real_of_int (timeout_seconds (config entered_sandbox)),
             memory_used_mb = 0\<rparr>,
            entered_sandbox\<lparr>sandbox_status := SB_RUNNING\<rparr>,
            untouched_os\<lparr>files_written := files_written untouched_os
                    @ [(path_join ?d ''_sandbox_script.py'', create_wrapper_script ?code)],
                spawned := spawned untouched_os
                    @ [([sys_executable slow_env, path_join ?d ''_sandbox_script.py''], ?d)]\<rparr>)"
    by blast
  then show ?thesis
    using h1 h5 by (simp add: p t x s untouched_os_def)
qed

end
